theory Spec2Isabelle
  imports Main "HOL-Library.Word"
begin

unbundle bit_operations_syntax

section \<open>Bytes, words and hexadecimal strings\<close>

text \<open>
  The imaging tool of \<^verbatim>\<open>src/Given/FTK_img.py\<close> copies a byte stream in chunks and feeds
  every chunk to two \<^verbatim>\<open>hashlib\<close> objects. File contents are lists of bytes, the hash
  registers are 32-bit words, and a hex digest is a lower-case string.
\<close>

type_synonym byte = "8 word"
type_synonym u32 = "32 word"

definition le_bytes_to_word :: "byte list \<Rightarrow> u32" where
  "le_bytes_to_word bs = foldr (\<lambda>b w. ucast b OR push_bit 8 w) bs 0"

definition be_bytes_to_word :: "byte list \<Rightarrow> u32" where
  "be_bytes_to_word bs = foldl (\<lambda>w b. push_bit 8 w OR ucast b) 0 bs"

definition block_words :: "(byte list \<Rightarrow> u32) \<Rightarrow> byte list \<Rightarrow> u32 list" where
  "block_words conv block = map (\<lambda>i. conv (take 4 (drop (4 * i) block))) [0..<16]"

definition word_to_le_bytes :: "u32 \<Rightarrow> byte list" where
  "word_to_le_bytes w = map (\<lambda>i. ucast (drop_bit (8 * i) w)) [0, 1, 2, 3]"

definition word_to_be_bytes :: "u32 \<Rightarrow> byte list" where
  "word_to_be_bytes w = map (\<lambda>i. ucast (drop_bit (8 * i) w)) [3, 2, 1, 0]"

text \<open>The message length in bits, as a 64-bit quantity (it wraps at \<open>2 ^ 64\<close>).\<close>

definition length_le_bytes :: "nat \<Rightarrow> byte list" where
  "length_le_bytes n =
     map (\<lambda>i. ucast (drop_bit (8 * i) (word_of_nat (8 * n) :: 64 word))) [0..<8]"

definition length_be_bytes :: "nat \<Rightarrow> byte list" where
  "length_be_bytes n = rev (length_le_bytes n)"

definition hex_digit :: "nat \<Rightarrow> char" where
  "hex_digit n = ''0123456789abcdef'' ! (n mod 16)"

definition hex_of_bytes :: "byte list \<Rightarrow> string" where
  "hex_of_bytes bs =
     concat (map (\<lambda>b. [hex_digit (unat b div 16), hex_digit (unat b mod 16)]) bs)"

section \<open>The hashlib objects\<close>

text \<open>
  \<^verbatim>\<open>hashlib.md5()\<close> and \<^verbatim>\<open>hashlib.sha1()\<close> are library objects, not code of the
  repository. They are modelled as the streaming algorithms of RFC 1321 and FIPS 180: a
  state holds the chaining registers, the bytes not yet forming a full 64-byte block, and
  the number of bytes seen; \<^verbatim>\<open>update\<close> absorbs every full block; \<^verbatim>\<open>hexdigest\<close> pads a
  copy of the state and prints the registers.
\<close>

fun absorb :: "('h \<Rightarrow> byte list \<Rightarrow> 'h) \<Rightarrow> 'h \<Rightarrow> byte list \<Rightarrow> 'h \<times> byte list" where
  "absorb f h bs =
     (if length bs < 64 then (h, bs) else absorb f (f h (take 64 bs)) (drop 64 bs))"

declare absorb.simps [simp del]

definition pad_zeros :: "nat \<Rightarrow> nat" where
  "pad_zeros n = (119 - n mod 64) mod 64"

subsection \<open>MD5\<close>

definition md5_K :: "u32 list" where
  "md5_K =
   [0xd76aa478, 0xe8c7b756, 0x242070db, 0xc1bdceee, 0xf57c0faf, 0x4787c62a, 0xa8304613, 0xfd469501,
    0x698098d8, 0x8b44f7af, 0xffff5bb1, 0x895cd7be, 0x6b901122, 0xfd987193, 0xa679438e, 0x49b40821,
    0xf61e2562, 0xc040b340, 0x265e5a51, 0xe9b6c7aa, 0xd62f105d, 0x02441453, 0xd8a1e681, 0xe7d3fbc8,
    0x21e1cde6, 0xc33707d6, 0xf4d50d87, 0x455a14ed, 0xa9e3e905, 0xfcefa3f8, 0x676f02d9, 0x8d2a4c8a,
    0xfffa3942, 0x8771f681, 0x6d9d6122, 0xfde5380c, 0xa4beea44, 0x4bdecfa9, 0xf6bb4b60, 0xbebfbc70,
    0x289b7ec6, 0xeaa127fa, 0xd4ef3085, 0x04881d05, 0xd9d4d039, 0xe6db99e5, 0x1fa27cf8, 0xc4ac5665,
    0xf4292244, 0x432aff97, 0xab9423a7, 0xfc93a039, 0x655b59c3, 0x8f0ccc92, 0xffeff47d, 0x85845dd1,
    0x6fa87e4f, 0xfe2ce6e0, 0xa3014314, 0x4e0811a1, 0xf7537e82, 0xbd3af235, 0x2ad7d2bb, 0xeb86d391]"

definition md5_S :: "nat list" where
  "md5_S =
   [7, 12, 17, 22, 7, 12, 17, 22, 7, 12, 17, 22, 7, 12, 17, 22,
    5, 9, 14, 20, 5, 9, 14, 20, 5, 9, 14, 20, 5, 9, 14, 20,
    4, 11, 16, 23, 4, 11, 16, 23, 4, 11, 16, 23, 4, 11, 16, 23,
    6, 10, 15, 21, 6, 10, 15, 21, 6, 10, 15, 21, 6, 10, 15, 21]"

type_synonym md5_regs = "u32 \<times> u32 \<times> u32 \<times> u32"

fun md5_step :: "u32 list \<Rightarrow> md5_regs \<Rightarrow> nat \<Rightarrow> md5_regs" where
  "md5_step m (a, b, c, d) i =
     (let (f, g) =
            (if i < 16 then ((b AND c) OR (NOT b AND d), i)
             else if i < 32 then ((d AND b) OR (NOT d AND c), (5 * i + 1) mod 16)
             else if i < 48 then (b XOR c XOR d, (3 * i + 5) mod 16)
             else (c XOR (b OR NOT d), (7 * i) mod 16))
      in (d, b + word_rotl (md5_S ! i) (f + a + md5_K ! i + m ! g), b, c))"

fun md5_compress :: "md5_regs \<Rightarrow> byte list \<Rightarrow> md5_regs" where
  "md5_compress (a0, b0, c0, d0) block =
     (case foldl (md5_step (block_words le_bytes_to_word block)) (a0, b0, c0, d0) [0..<64] of
        (a, b, c, d) \<Rightarrow> (a0 + a, b0 + b, c0 + c, d0 + d))"

record md5_state =
  md5_regs :: md5_regs
  md5_buf :: "byte list"
  md5_count :: nat

definition md5_init :: md5_state where
  "md5_init =
     \<lparr>md5_regs = (0x67452301, 0xefcdab89, 0x98badcfe, 0x10325476), md5_buf = [], md5_count = 0\<rparr>"

definition md5_update :: "md5_state \<Rightarrow> byte list \<Rightarrow> md5_state" where
  "md5_update s chunk =
     (case absorb md5_compress (md5_regs s) (md5_buf s @ chunk) of
        (h, rest) \<Rightarrow> \<lparr>md5_regs = h, md5_buf = rest, md5_count = md5_count s + length chunk\<rparr>)"

definition md5_digest :: "md5_state \<Rightarrow> byte list" where
  "md5_digest s =
     (case fst (absorb md5_compress (md5_regs s)
                 (md5_buf s @ [0x80] @ replicate (pad_zeros (length (md5_buf s))) 0
                    @ length_le_bytes (md5_count s))) of
        (a, b, c, d) \<Rightarrow> concat (map word_to_le_bytes [a, b, c, d]))"

definition md5_hexdigest :: "md5_state \<Rightarrow> string" where
  "md5_hexdigest s = hex_of_bytes (md5_digest s)"

subsection \<open>SHA-1\<close>

type_synonym sha1_regs = "u32 \<times> u32 \<times> u32 \<times> u32 \<times> u32"

text \<open>
  One round with the message schedule kept as a window of the last sixteen words: the head
  is the word of round \<open>t\<close>, and the word of round \<open>t + 16\<close> is appended.
\<close>

fun sha1_round :: "nat \<Rightarrow> sha1_regs \<times> u32 list \<Rightarrow> sha1_regs \<times> u32 list" where
  "sha1_round t ((a, b, c, d, e), w) =
     (let (f, k) =
            (if t < 20 then ((b AND c) OR (NOT b AND d), 0x5a827999)
             else if t < 40 then (b XOR c XOR d, 0x6ed9eba1)
             else if t < 60 then ((b AND c) OR (b AND d) OR (c AND d), 0x8f1bbcdc)
             else (b XOR c XOR d, 0xca62c1d6))
      in ((word_rotl 5 a + f + e + k + hd w, a, word_rotl 30 b, c, d),
          tl w @ [word_rotl 1 (w ! 13 XOR w ! 8 XOR w ! 2 XOR w ! 0)]))"

fun sha1_compress :: "sha1_regs \<Rightarrow> byte list \<Rightarrow> sha1_regs" where
  "sha1_compress (h0, h1, h2, h3, h4) block =
     (case fst (fold sha1_round [0..<80]
                  ((h0, h1, h2, h3, h4), block_words be_bytes_to_word block)) of
        (a, b, c, d, e) \<Rightarrow> (h0 + a, h1 + b, h2 + c, h3 + d, h4 + e))"

record sha1_state =
  sha1_regs :: sha1_regs
  sha1_buf :: "byte list"
  sha1_count :: nat

definition sha1_init :: sha1_state where
  "sha1_init =
     \<lparr>sha1_regs = (0x67452301, 0xefcdab89, 0x98badcfe, 0x10325476, 0xc3d2e1f0),
      sha1_buf = [], sha1_count = 0\<rparr>"

definition sha1_update :: "sha1_state \<Rightarrow> byte list \<Rightarrow> sha1_state" where
  "sha1_update s chunk =
     (case absorb sha1_compress (sha1_regs s) (sha1_buf s @ chunk) of
        (h, rest) \<Rightarrow> \<lparr>sha1_regs = h, sha1_buf = rest, sha1_count = sha1_count s + length chunk\<rparr>)"

definition sha1_digest :: "sha1_state \<Rightarrow> byte list" where
  "sha1_digest s =
     (case fst (absorb sha1_compress (sha1_regs s)
                 (sha1_buf s @ [0x80] @ replicate (pad_zeros (length (sha1_buf s))) 0
                    @ length_be_bytes (sha1_count s))) of
        (a, b, c, d, e) \<Rightarrow> concat (map word_to_be_bytes [a, b, c, d, e]))"

definition sha1_hexdigest :: "sha1_state \<Rightarrow> string" where
  "sha1_hexdigest s = hex_of_bytes (sha1_digest s)"

section \<open>Files and the operating system calls\<close>

text \<open>
  The file system is a map from paths to nodes. A node carries the bytes of the file, the
  other paths under which the same file is reachable (hard links, or another spelling of
  the path such as \<^verbatim>\<open>./evidence.bin\<close>), and what the operating system answers: whether
  \<^verbatim>\<open>os.path.getsize\<close> raises, the size it reports when that is not the number of bytes the
  file delivers (0 for a pipe or a device), whether \<^verbatim>\<open>open\<close> raises \<^verbatim>\<open>PermissionError\<close>, the
  offset at which a read raises, and the size at which a write raises. A node that is stored
  under several paths lists under each of them the others.
\<close>

datatype error = FileNotFoundError | PermissionError | OSError | ValueError | OverflowError

type_synonym path = string

record node =
  content :: "byte list"
  links :: "path list"
  stat_fails :: bool
  reported_size :: "nat option"
  read_denied :: bool
  write_denied :: bool
  bad_offset :: "nat option"
  capacity :: "nat option"

type_synonym fs = "path \<rightharpoonup> node"

definition regular_file :: "byte list \<Rightarrow> node" where
  "regular_file bs =
     \<lparr>content = bs, links = [], stat_fails = False, reported_size = None,
      read_denied = False, write_denied = False, bad_offset = None, capacity = None\<rparr>"

text \<open>
  Storing a new state of the file that \<open>p\<close> names: every other path of the same file shows
  it too.
\<close>

definition put :: "fs \<Rightarrow> path \<Rightarrow> node \<Rightarrow> fs" where
  "put fs p f =
     (\<lambda>q. if q = p then Some f
          else if q \<in> set (links f) then Some (f\<lparr>links := p # removeAll q (links f)\<rparr>)
          else fs q)"

definition getsize :: "fs \<Rightarrow> path \<Rightarrow> error + nat" where
  "getsize fs p =
     (case fs p of
        None \<Rightarrow> Inl FileNotFoundError
      | Some f \<Rightarrow>
          if stat_fails f then Inl OSError
          else Inr (case reported_size f of None \<Rightarrow> length (content f) | Some k \<Rightarrow> k))"

definition open_rb :: "fs \<Rightarrow> path \<Rightarrow> error + node" where
  "open_rb fs p =
     (case fs p of
        None \<Rightarrow> Inl FileNotFoundError
      | Some f \<Rightarrow> if read_denied f then Inl PermissionError else Inr f)"

text \<open>Mode \<^verbatim>\<open>"wb"\<close> creates the file or truncates the one that is there.\<close>

definition open_wb :: "fs \<Rightarrow> path \<Rightarrow> error + node \<times> fs" where
  "open_wb fs p =
     (case fs p of
        None \<Rightarrow> Inr (regular_file [], fs(p \<mapsto> regular_file []))
      | Some f \<Rightarrow>
          if write_denied f then Inl PermissionError
          else Inr (f\<lparr>content := []\<rparr>, put fs p (f\<lparr>content := []\<rparr>)))"

text \<open>
  The size argument of a read, as the two kinds of file object take it. Both refuse a size
  that does not fit the bytes object to allocate. The unbuffered object of
  \<^verbatim>\<open>open(..., buffering=0)\<close> reads to the end of the file for every negative size, the
  buffered object of \<^verbatim>\<open>open(path, "rb")\<close> does so for \<open>-1\<close> only and raises
  \<^verbatim>\<open>ValueError\<close> below. The result is the number of bytes asked for, or \<open>None\<close> for a read
  to the end. An accepted request is taken to get its buffer: \<^verbatim>\<open>MemoryError\<close> is left out.
\<close>

datatype reader = Raw | Buffered

definition read_request :: "reader \<Rightarrow> int \<Rightarrow> error + nat option" where
  "read_request r n =
     (if n < - (2 ^ 63) \<or> 2 ^ 63 - 34 < n then Inl OverflowError
      else if 0 \<le> n then Inr (Some (nat n))
      else if r = Buffered \<and> n \<noteq> - 1 then Inl ValueError
      else Inr None)"

text \<open>
  \<^verbatim>\<open>f.read(n)\<close> at position \<open>pos\<close>: on a healthy file the bytes asked for or what is
  left, as a regular file delivers them; \<open>n = 0\<close> returns the empty bytes object.
\<close>

definition read_chunk :: "reader \<Rightarrow> node \<Rightarrow> nat \<Rightarrow> int \<Rightarrow> error + byte list" where
  "read_chunk r f pos n =
     (case read_request r n of
        Inl e \<Rightarrow> Inl e
      | Inr req \<Rightarrow>
          (let chunk = (case req of
                          None \<Rightarrow> drop pos (content f)
                        | Some k \<Rightarrow> take k (drop pos (content f)))
           in case bad_offset f of
                None \<Rightarrow> Inr chunk
              | Some k \<Rightarrow>
                  if pos \<le> k \<and> k < pos + length chunk then Inl OSError else Inr chunk))"

text \<open>\<^verbatim>\<open>dst.write(chunk)\<close>: a full node takes what fits and the call raises.\<close>

definition write_chunk :: "node \<Rightarrow> byte list \<Rightarrow> error option \<times> node" where
  "write_chunk f chunk =
     (case capacity f of
        None \<Rightarrow> (None, f\<lparr>content := content f @ chunk\<rparr>)
      | Some c \<Rightarrow>
          if length (content f) + length chunk \<le> c
          then (None, f\<lparr>content := content f @ chunk\<rparr>)
          else (Some OSError, f\<lparr>content := content f @ take (c - length (content f)) chunk\<rparr>))"

section \<open>hash_file and image_and_hash\<close>

text \<open>
  The loop of \<^verbatim>\<open>hash_file\<close>. The list collects the values of \<^verbatim>\<open>total_read\<close> that the
  progress line prints, one per chunk.
\<close>

function hash_loop ::
  "node \<Rightarrow> int \<Rightarrow> nat \<Rightarrow> md5_state \<Rightarrow> sha1_state \<Rightarrow> nat \<Rightarrow> nat list
     \<Rightarrow> (error + md5_state \<times> sha1_state) \<times> nat list" where
  "hash_loop f chunk_size pos md5 sha1 total_read progress =
     (case read_chunk Buffered f pos chunk_size of
        Inl e \<Rightarrow> (Inl e, progress)
      | Inr chunk \<Rightarrow>
          if chunk = [] then (Inr (md5, sha1), progress)
          else hash_loop f chunk_size (pos + length chunk)
                 (md5_update md5 chunk) (sha1_update sha1 chunk)
                 (total_read + length chunk) (progress @ [total_read + length chunk]))"
  by pat_completeness auto
termination
proof (relation "measure (\<lambda>(f, chunk_size, pos, md5, sha1, total_read, progress).
                            length (content f) - pos)")
  show "wf (measure (\<lambda>(f, chunk_size, pos, md5, sha1, total_read, progress).
                       length (content f) - pos))"
    by simp
next
  fix f :: node and chunk_size :: int and pos :: nat and md5 :: md5_state
    and sha1 :: sha1_state and total_read :: nat and progress :: "nat list"
    and chunk :: "byte list"
  assume r: "read_chunk Buffered f pos chunk_size = Inr chunk" and ne: "chunk \<noteq> []"
  from r have "chunk = drop pos (content f) \<or> (\<exists>k. chunk = take k (drop pos (content f)))"
    by (auto simp: read_chunk_def Let_def split: sum.splits option.splits if_splits)
  with ne have "pos < length (content f)"
    by auto
  with ne show "((f, chunk_size, pos + length chunk, md5_update md5 chunk,
                  sha1_update sha1 chunk, total_read + length chunk,
                  progress @ [total_read + length chunk]),
                 (f, chunk_size, pos, md5, sha1, total_read, progress))
                \<in> measure (\<lambda>(f, chunk_size, pos, md5, sha1, total_read, progress).
                             length (content f) - pos)"
    by (cases chunk) auto
qed

declare hash_loop.simps [simp del]

definition hash_file :: "path \<Rightarrow> int \<Rightarrow> fs \<Rightarrow> (error + string \<times> string) \<times> nat list" where
  "hash_file path chunk_size fs =
     (case open_rb fs path of
        Inl e \<Rightarrow> (Inl e, [])
      | Inr f \<Rightarrow>
          (case hash_loop f chunk_size 0 md5_init sha1_init 0 [] of
             (Inl e, progress) \<Rightarrow> (Inl e, progress)
           | (Inr (md5, sha1), progress) \<Rightarrow>
               (Inr (md5_hexdigest md5, sha1_hexdigest sha1), progress)))"

text \<open>
  The loop of \<^verbatim>\<open>image_and_hash\<close>: read a chunk, stop on the empty one, else write it and
  feed the same chunk to both hash objects. An exception leaves the loop with what the
  destination holds at that moment.
\<close>

function copy_loop ::
  "node \<Rightarrow> int \<Rightarrow> nat \<Rightarrow> node \<Rightarrow> md5_state \<Rightarrow> sha1_state \<Rightarrow> nat \<Rightarrow> nat list
     \<Rightarrow> (error + md5_state \<times> sha1_state) \<times> nat list \<times> node" where
  "copy_loop src chunk_size pos dst md5 sha1 total_read progress =
     (case read_chunk Raw src pos chunk_size of
        Inl e \<Rightarrow> (Inl e, progress, dst)
      | Inr chunk \<Rightarrow>
          if chunk = [] then (Inr (md5, sha1), progress, dst)
          else (case write_chunk dst chunk of
                  (Some e, dst') \<Rightarrow> (Inl e, progress, dst')
                | (None, dst') \<Rightarrow>
                    copy_loop src chunk_size (pos + length chunk) dst'
                      (md5_update md5 chunk) (sha1_update sha1 chunk)
                      (total_read + length chunk) (progress @ [total_read + length chunk])))"
  by pat_completeness auto
termination
proof (relation "measure (\<lambda>(src, chunk_size, pos, dst, md5, sha1, total_read, progress).
                            length (content src) - pos)")
  show "wf (measure (\<lambda>(src, chunk_size, pos, dst, md5, sha1, total_read, progress).
                       length (content src) - pos))"
    by simp
next
  fix src dst dst' :: node and chunk_size :: int and pos :: nat and md5 :: md5_state
    and sha1 :: sha1_state and total_read :: nat and progress :: "nat list"
    and chunk :: "byte list" and x :: "error option \<times> node" and y :: "error option"
  assume r: "read_chunk Raw src pos chunk_size = Inr chunk" and ne: "chunk \<noteq> []"
  from r have "chunk = drop pos (content src) \<or> (\<exists>k. chunk = take k (drop pos (content src)))"
    by (auto simp: read_chunk_def Let_def split: sum.splits option.splits if_splits)
  with ne have "pos < length (content src)"
    by auto
  with ne show "((src, chunk_size, pos + length chunk, dst', md5_update md5 chunk,
                  sha1_update sha1 chunk, total_read + length chunk,
                  progress @ [total_read + length chunk]),
                 (src, chunk_size, pos, dst, md5, sha1, total_read, progress))
                \<in> measure (\<lambda>(src, chunk_size, pos, dst, md5, sha1, total_read, progress).
                             length (content src) - pos)"
    by (cases chunk) auto
qed

declare copy_loop.simps [simp del]

text \<open>
  The \<^verbatim>\<open>with\<close> block: the source is opened first, then the destination. Both handles are
  closed on every way out, so the destination keeps what was written. The loop writes to the
  destination only, so the source handle reads the file that the source path names as it
  stands once both files are open: when the destination is the same file, under the same
  path or another one, opening it for writing has emptied it.
\<close>

definition copy_stream ::
  "path \<Rightarrow> path \<Rightarrow> int \<Rightarrow> fs \<Rightarrow> (error + md5_state \<times> sha1_state) \<times> nat list \<times> fs" where
  "copy_stream source_path output_path chunk_size fs =
     (case open_rb fs source_path of
        Inl e \<Rightarrow> (Inl e, [], fs)
      | Inr src \<Rightarrow>
          (case open_wb fs output_path of
             Inl e \<Rightarrow> (Inl e, [], fs)
           | Inr (dst, fs1) \<Rightarrow>
               (case copy_loop (case fs1 source_path of None \<Rightarrow> src | Some f \<Rightarrow> f)
                       chunk_size 0 dst md5_init sha1_init 0 [] of
                  (r, progress, dst') \<Rightarrow> (r, progress, put fs1 output_path dst'))))"

text \<open>
  The two \<^verbatim>\<open>try\<close> blocks around \<^verbatim>\<open>os.path.getsize\<close>: any exception leaves the size at
  \<^verbatim>\<open>None\<close>.
\<close>

definition size_or_none :: "fs \<Rightarrow> path \<Rightarrow> nat option" where
  "size_or_none fs p = (case getsize fs p of Inr n \<Rightarrow> Some n | Inl e \<Rightarrow> None)"

definition image_and_hash ::
  "path \<Rightarrow> path \<Rightarrow> int \<Rightarrow> fs
     \<Rightarrow> (error + string \<times> string \<times> nat option \<times> nat option) \<times> nat list \<times> fs" where
  "image_and_hash source_path output_path chunk_size fs =
     (let source_size = size_or_none fs source_path
      in case copy_stream source_path output_path chunk_size fs of
           (Inl e, progress, fs') \<Rightarrow> (Inl e, progress, fs')
         | (Inr (md5, sha1), progress, fs') \<Rightarrow>
             (let output_size = size_or_none fs' output_path
              in (Inr (md5_hexdigest md5, sha1_hexdigest sha1, source_size, output_size),
                  progress, fs')))"

section \<open>main\<close>

text \<open>
  What \<^verbatim>\<open>main\<close> reads from the keyboard and the clock is a parameter: the answers as
  \<^verbatim>\<open>input(...).strip()\<close> returns them (the last one also lower-cased), and the formatted
  time. Console output is left out, apart from the progress values kept by the loops.
\<close>

record inputs =
  in_case_id :: string
  in_examiner :: string
  in_evidence_desc :: string
  in_source_path :: string
  in_output_path :: string
  in_user_input :: string
  in_datetime :: string

text \<open>
  The dictionary \<^verbatim>\<open>report_data\<close>, one field per key. The two sizes are kept as the
  numbers that \<^verbatim>\<open>human_readable_size\<close> formats.
\<close>

record report_data =
  rd_datetime :: string
  rd_case_id :: string
  rd_examiner :: string
  rd_evidence_desc :: string
  rd_source_path :: string
  rd_output_path :: string
  rd_source_size :: "nat option"
  rd_output_size :: "nat option"
  rd_size_match :: string
  rd_md5_copy :: string
  rd_sha1_copy :: string
  rd_md5_verify :: string
  rd_sha1_verify :: string
  rd_md5_match :: string
  rd_sha1_match :: string
  rd_user_confirm :: string
  rd_conclusion :: string

datatype main_result = NoSourcePath | Failed error | Completed report_data

definition default_chunk_size :: int where
  "default_chunk_size = 1024 * 1024"

definition default_output :: path where
  "default_output = ''disk_image.dd''"

definition report_path :: path where
  "report_path = ''disk_imaging_report.txt''"

definition or_default :: "string \<Rightarrow> string \<Rightarrow> string" where
  "or_default s d = (if s = [] then d else s)"

definition yes_no :: "bool \<Rightarrow> string" where
  "yes_no b = (if b then ''YES'' else ''NO'')"

definition size_match :: "nat option \<Rightarrow> nat option \<Rightarrow> string" where
  "size_match src_size out_size =
     (if src_size \<noteq> None \<and> out_size \<noteq> None
      then (if src_size = out_size then ''YES'' else ''NO'')
      else ''UNKNOWN'')"

definition conclusion :: "bool \<Rightarrow> bool \<Rightarrow> string \<Rightarrow> string" where
  "conclusion md5_match_bool sha1_match_bool size_match_str =
     (if md5_match_bool \<and> sha1_match_bool \<and> size_match_str = ''YES''
      then ''Image creation SUCCESSFUL. Integrity verified by size and hash match.''
      else if md5_match_bool \<and> sha1_match_bool
      then ''Image hashes match, but size comparison was not fully available.''
      else ''WARNING: Hash mismatch detected. Image may be corrupted or modified.'')"

text \<open>
  \<^verbatim>\<open>write_report\<close> opens the report for writing and writes the text; how the text is laid
  out is the parameter \<open>render\<close>.
\<close>

definition write_report ::
  "(report_data \<Rightarrow> byte list) \<Rightarrow> path \<Rightarrow> report_data \<Rightarrow> fs \<Rightarrow> error option \<times> fs" where
  "write_report render p data fs =
     (case open_wb fs p of
        Inl e \<Rightarrow> (Some e, fs)
      | Inr (rep, fs1) \<Rightarrow>
          (case write_chunk rep (render data) of (r, rep') \<Rightarrow> (r, put fs1 p rep')))"

text \<open>
  \<^verbatim>\<open>main\<close> from the source path on. Every exception of the \<^verbatim>\<open>try\<close> block is caught by one
  of the three \<^verbatim>\<open>except\<close> clauses, which print a message and do nothing else.
\<close>

definition main :: "(report_data \<Rightarrow> byte list) \<Rightarrow> inputs \<Rightarrow> fs \<Rightarrow> main_result \<times> fs" where
  "main render inp fs =
     (if in_source_path inp = [] then (NoSourcePath, fs)
      else
        (let output_path = or_default (in_output_path inp) default_output
         in case image_and_hash (in_source_path inp) output_path default_chunk_size fs of
              (Inl e, progress, fs1) \<Rightarrow> (Failed e, fs1)
            | (Inr (md5_copy, sha1_copy, src_size, out_size), progress, fs1) \<Rightarrow>
                (case hash_file output_path default_chunk_size fs1 of
                   (Inl e, progress') \<Rightarrow> (Failed e, fs1)
                 | (Inr (md5_verify, sha1_verify), progress') \<Rightarrow>
                     (let md5_match_bool = (md5_copy = md5_verify);
                          sha1_match_bool = (sha1_copy = sha1_verify);
                          user_confirm = yes_no (in_user_input inp \<in> set [''yes'', ''y'']);
                          report =
                            \<lparr>rd_datetime = in_datetime inp,
                             rd_case_id = or_default (in_case_id inp) ''N/A'',
                             rd_examiner = or_default (in_examiner inp) ''N/A'',
                             rd_evidence_desc = or_default (in_evidence_desc inp) ''N/A'',
                             rd_source_path = in_source_path inp,
                             rd_output_path = output_path,
                             rd_source_size = src_size,
                             rd_output_size = out_size,
                             rd_size_match = size_match src_size out_size,
                             rd_md5_copy = md5_copy,
                             rd_sha1_copy = sha1_copy,
                             rd_md5_verify = md5_verify,
                             rd_sha1_verify = sha1_verify,
                             rd_md5_match = yes_no md5_match_bool,
                             rd_sha1_match = yes_no sha1_match_bool,
                             rd_user_confirm = user_confirm,
                             rd_conclusion =
                               conclusion md5_match_bool sha1_match_bool
                                 (size_match src_size out_size)\<rparr>
                      in case write_report render report_path report fs1 of
                           (Some e, fs2) \<Rightarrow> (Failed e, fs2)
                         | (None, fs2) \<Rightarrow> (Completed report, fs2)))))"

section \<open>Auxiliary notions for the statements\<close>

text \<open>The values of \<^verbatim>\<open>total_read\<close> after each chunk of a sequence, starting from \<open>t\<close>.\<close>

fun running_totals :: "nat \<Rightarrow> byte list list \<Rightarrow> nat list" where
  "running_totals t [] = []"
| "running_totals t (c # cs) = (t + length c) # running_totals (t + length c) cs"

text \<open>
  A usable file can be opened, read to its end and written without limit, and has one name.
  An ordinary regular file is usable and its size query returns the number of its bytes. A
  path is a usable, or ordinary, target when it is free or names such a file.
\<close>

definition usable :: "node \<Rightarrow> bool" where
  "usable f \<longleftrightarrow>
     \<not> read_denied f \<and> \<not> write_denied f \<and> bad_offset f = None \<and> capacity f = None \<and>
     links f = []"

definition ordinary :: "node \<Rightarrow> bool" where
  "ordinary f \<longleftrightarrow>
     \<not> stat_fails f \<and> reported_size f = None \<and> \<not> read_denied f \<and> \<not> write_denied f \<and>
     bad_offset f = None \<and> capacity f = None \<and> links f = []"

definition usable_target :: "fs \<Rightarrow> path \<Rightarrow> bool" where
  "usable_target fs p = (case fs p of None \<Rightarrow> True | Some f \<Rightarrow> usable f)"

definition ordinary_target :: "fs \<Rightarrow> path \<Rightarrow> bool" where
  "ordinary_target fs p = (case fs p of None \<Rightarrow> True | Some f \<Rightarrow> ordinary f)"

text \<open>Two paths name the same file: they are equal, or one is among the links of the other.\<close>

definition same_file :: "fs \<Rightarrow> path \<Rightarrow> path \<Rightarrow> bool" where
  "same_file fs p q \<longleftrightarrow>
     p = q \<or> (case fs p of None \<Rightarrow> False | Some f \<Rightarrow> q \<in> set (links f)) \<or>
     (case fs q of None \<Rightarrow> False | Some g \<Rightarrow> p \<in> set (links g))"

text \<open>The digests of a byte string hashed in one piece.\<close>

definition md5_hex :: "byte list \<Rightarrow> string" where
  "md5_hex bs = md5_hexdigest (md5_update md5_init bs)"

definition sha1_hex :: "byte list \<Rightarrow> string" where
  "sha1_hex bs = sha1_hexdigest (sha1_update sha1_init bs)"

text \<open>A small file system used to run the functions on concrete input.\<close>

definition example_fs :: fs where
  "example_fs = [''evidence.bin'' \<mapsto> regular_file [1, 2, 3, 4, 5]]"

text \<open>The same file under a second spelling of its path.\<close>

definition linked_fs :: fs where
  "linked_fs =
     [''evidence.bin'' \<mapsto> (regular_file [1, 2, 3, 4, 5])\<lparr>links := [''./evidence.bin'']\<rparr>,
      ''./evidence.bin'' \<mapsto> (regular_file [1, 2, 3, 4, 5])\<lparr>links := [''evidence.bin'']\<rparr>]"

text \<open>The scenario of a source of 3 MiB of the byte \<open>0xAB\<close>, and answers for \<^verbatim>\<open>main\<close>.\<close>

definition scenario_fs :: fs where
  "scenario_fs = [''evidence.bin'' \<mapsto> regular_file (replicate 3145728 0xAB)]"

definition scenario_inputs :: "string \<Rightarrow> string \<Rightarrow> inputs" where
  "scenario_inputs src out =
     \<lparr>in_case_id = ''CASE-001'', in_examiner = [], in_evidence_desc = ''USB stick'',
      in_source_path = src, in_output_path = out, in_user_input = ''yes'',
      in_datetime = ''2024-01-01 10:00:00''\<rparr>"

definition no_layout :: "report_data \<Rightarrow> byte list" where
  "no_layout r = []"


definition damaged_fs :: fs where
  "damaged_fs =
     [''/dev/sdb'' \<mapsto> (regular_file (replicate 2097152 0xAB))\<lparr>bad_offset := Some 1500000\<rparr>]"

text \<open>
  An action of the environment between the two passes: the file at a path loses its last
  byte.
\<close>

definition truncate_last :: "fs \<Rightarrow> path \<Rightarrow> fs" where
  "truncate_last fs p =
     (case fs p of None \<Rightarrow> fs | Some f \<Rightarrow> put fs p (f\<lparr>content := butlast (content f)\<rparr>))"

section \<open>Streaming: chunks and concatenation\<close>

text \<open>
  Feeding a hash object two chunks one after the other leaves it in the state that the
  concatenated chunk leaves it in: the buffer carries the incomplete block over.
\<close>

lemma absorb_append:
  "absorb f h (xs @ ys) = (case absorb f h xs of (h', r) \<Rightarrow> absorb f h' (r @ ys))"
proof (induction f h xs rule: absorb.induct)
  case (1 f h bs)
  show ?case
  proof (cases "length bs < 64")
    case True
    then show ?thesis by (simp add: absorb.simps [of f h bs])
  next
    case False
    then have "absorb f h (bs @ ys) = absorb f (f h (take 64 bs)) (drop 64 bs @ ys)"
      by (simp add: absorb.simps [of f h "bs @ ys"])
    also have "\<dots> = (case absorb f (f h (take 64 bs)) (drop 64 bs) of
                       (h', r) \<Rightarrow> absorb f h' (r @ ys))"
      using False by (simp add: "1.IH")
    also have "absorb f (f h (take 64 bs)) (drop 64 bs) = absorb f h bs"
      using False by (simp add: absorb.simps [of f h bs])
    finally show ?thesis .
  qed
qed

lemma absorb_short: "length bs < 64 \<Longrightarrow> absorb f h bs = (h, bs)"
  by (simp add: absorb.simps)

lemma absorb_one_block: "length bs = 64 \<Longrightarrow> absorb f h bs = (f h bs, [])"
  by (simp add: absorb.simps [of f h bs] absorb.simps [of f "f h bs" "[]"])

lemma md5_update_append: "md5_update (md5_update s xs) ys = md5_update s (xs @ ys)"
proof -
  obtain h r where a: "absorb md5_compress (md5_regs s) (md5_buf s @ xs) = (h, r)"
    by (cases "absorb md5_compress (md5_regs s) (md5_buf s @ xs)")
  have "absorb md5_compress (md5_regs s) (md5_buf s @ xs @ ys) = absorb md5_compress h (r @ ys)"
    using absorb_append [of md5_compress "md5_regs s" "md5_buf s @ xs" ys] a by simp
  with a show ?thesis
    by (simp add: md5_update_def add.assoc split: prod.splits)
qed

lemma sha1_update_append: "sha1_update (sha1_update s xs) ys = sha1_update s (xs @ ys)"
proof -
  obtain h r where a: "absorb sha1_compress (sha1_regs s) (sha1_buf s @ xs) = (h, r)"
    by (cases "absorb sha1_compress (sha1_regs s) (sha1_buf s @ xs)")
  have "absorb sha1_compress (sha1_regs s) (sha1_buf s @ xs @ ys) = absorb sha1_compress h (r @ ys)"
    using absorb_append [of sha1_compress "sha1_regs s" "sha1_buf s @ xs" ys] a by simp
  with a show ?thesis
    by (simp add: sha1_update_def add.assoc split: prod.splits)
qed

lemma md5_update_init_Nil: "md5_update md5_init [] = md5_init"
  by (simp add: md5_update_def md5_init_def absorb_short)

lemma sha1_update_init_Nil: "sha1_update sha1_init [] = sha1_init"
  by (simp add: sha1_update_def sha1_init_def absorb_short)

lemma foldl_md5_update:
  "foldl md5_update (md5_update s xs) chunks = md5_update s (xs @ concat chunks)"
  by (induction chunks arbitrary: xs) (simp_all add: md5_update_append)

lemma foldl_sha1_update:
  "foldl sha1_update (sha1_update s xs) chunks = sha1_update s (xs @ concat chunks)"
  by (induction chunks arbitrary: xs) (simp_all add: sha1_update_append)

lemma foldl_md5_update_init:
  "foldl md5_update md5_init chunks = md5_update md5_init (concat chunks)"
  using foldl_md5_update [of md5_init "[]" chunks] by (simp add: md5_update_init_Nil)

lemma foldl_sha1_update_init:
  "foldl sha1_update sha1_init chunks = sha1_update sha1_init (concat chunks)"
  using foldl_sha1_update [of sha1_init "[]" chunks] by (simp add: sha1_update_init_Nil)

lemma md5_hex_Nil: "md5_hex [] = md5_hexdigest md5_init"
  by (simp add: md5_hex_def md5_update_init_Nil)

lemma sha1_hex_Nil: "sha1_hex [] = sha1_hexdigest sha1_init"
  by (simp add: sha1_hex_def sha1_update_init_Nil)

section \<open>Test vectors\<close>

text \<open>
  The digests of the empty message and of the single byte \<open>0xAB\<close>, computed by the
  definitions above, are the values that \<^verbatim>\<open>hashlib\<close> prints. SHA-1 is evaluated in steps
  of ten rounds.
\<close>

lemma md5_hexdigest_init: "md5_hexdigest md5_init = ''d41d8cd98f00b204e9800998ecf8427e''"
  by code_simp

lemma md5_hex_AB: "md5_hex [0xAB] = ''2408ad11f9eb830da749e2a36a29eff7''"
  by code_simp

lemma sha1_regs_init [simp]:
  "sha1_regs sha1_init = (0x67452301, 0xefcdab89, 0x98badcfe, 0x10325476, 0xc3d2e1f0)"
  by (simp add: sha1_init_def)

lemma sha1_empty_rounds_0:
  "fold sha1_round [0..<10]
     ((0x67452301, 0xefcdab89, 0x98badcfe, 0x10325476, 0xc3d2e1f0),
      [0x80000000, 0x00000000, 0x00000000, 0x00000000, 0x00000000, 0x00000000, 0x00000000,
       0x00000000, 0x00000000, 0x00000000, 0x00000000, 0x00000000, 0x00000000, 0x00000000,
       0x00000000, 0x00000000]) =
     ((0xcbdbff31, 0x41376611, 0x21c1d200, 0xf0275fc9, 0xb912add9),
      [0x00000000, 0x00000000, 0x00000000, 0x00000000, 0x00000000, 0x00000000, 0x00000001,
       0x00000000, 0x00000000, 0x00000002, 0x00000000, 0x00000000, 0x00000004, 0x00000000,
       0x00000002, 0x00000008])"
  by code_simp

lemma sha1_empty_rounds_10:
  "fold sha1_round [10..<20]
     ((0xcbdbff31, 0x41376611, 0x21c1d200, 0xf0275fc9, 0xb912add9),
      [0x00000000, 0x00000000, 0x00000000, 0x00000000, 0x00000000, 0x00000000, 0x00000001,
       0x00000000, 0x00000000, 0x00000002, 0x00000000, 0x00000000, 0x00000004, 0x00000000,
       0x00000002, 0x00000008]) =
     ((0xe758e8da, 0x0b3088dd, 0x8a2a5483, 0xc1afe45c, 0xf63f5951),
      [0x00000000, 0x00000000, 0x00000004, 0x00000000, 0x00000002, 0x00000008, 0x00000000,
       0x00000000, 0x00000010, 0x00000000, 0x0000000a, 0x00000020, 0x00000006, 0x00000000,
       0x00000040, 0x00000008])"
  by code_simp

lemma sha1_empty_rounds_20:
  "fold sha1_round [20..<30]
     ((0xe758e8da, 0x0b3088dd, 0x8a2a5483, 0xc1afe45c, 0xf63f5951),
      [0x00000000, 0x00000000, 0x00000004, 0x00000000, 0x00000002, 0x00000008, 0x00000000,
       0x00000000, 0x00000010, 0x00000000, 0x0000000a, 0x00000020, 0x00000006, 0x00000000,
       0x00000040, 0x00000008]) =
     ((0xca4556cb, 0x874b786f, 0x71ec478b, 0x53cbb470, 0x0d3cf5b6),
      [0x0000000a, 0x00000020, 0x00000006, 0x00000000, 0x00000040, 0x00000008, 0x00000028,
       0x00000080, 0x00000008, 0x00000000, 0x00000108, 0x00000000, 0x000000a0, 0x00000200,
       0x00000064, 0x00000000])"
  by code_simp

lemma sha1_empty_rounds_30:
  "fold sha1_round [30..<40]
     ((0xca4556cb, 0x874b786f, 0x71ec478b, 0x53cbb470, 0x0d3cf5b6),
      [0x0000000a, 0x00000020, 0x00000006, 0x00000000, 0x00000040, 0x00000008, 0x00000028,
       0x00000080, 0x00000008, 0x00000000, 0x00000108, 0x00000000, 0x000000a0, 0x00000200,
       0x00000064, 0x00000000]) =
     ((0x9bdbdd71, 0x62273351, 0xec805e22, 0x413c1d9a, 0x2aeeae62),
      [0x00000108, 0x00000000, 0x000000a0, 0x00000200, 0x00000064, 0x00000000, 0x00000408,
       0x00000088, 0x0000029c, 0x00000800, 0x00000080, 0x00000028, 0x00001088, 0x00000000,
       0x00000a40, 0x00002000])"
  by code_simp

lemma sha1_empty_rounds_40:
  "fold sha1_round [40..<50]
     ((0x9bdbdd71, 0x62273351, 0xec805e22, 0x413c1d9a, 0x2aeeae62),
      [0x00000108, 0x00000000, 0x000000a0, 0x00000200, 0x00000064, 0x00000000, 0x00000408,
       0x00000088, 0x0000029c, 0x00000800, 0x00000080, 0x00000028, 0x00001088, 0x00000000,
       0x00000a40, 0x00002000]) =
     ((0x6ae826ff, 0x0bca9922, 0xf9b4e7d0, 0x28656ea4, 0xebf9a56a),
      [0x00000080, 0x00000028, 0x00001088, 0x00000000, 0x00000a40, 0x00002000, 0x00000668,
       0x00000080, 0x00004088, 0x00000880, 0x000028c8, 0x00008000, 0x000008a8, 0x00000080,
       0x000108e8, 0x00000000])"
  by code_simp

lemma sha1_empty_rounds_50:
  "fold sha1_round [50..<60]
     ((0x6ae826ff, 0x0bca9922, 0xf9b4e7d0, 0x28656ea4, 0xebf9a56a),
      [0x00000080, 0x00000028, 0x00001088, 0x00000000, 0x00000a40, 0x00002000, 0x00000668,
       0x00000080, 0x00004088, 0x00000880, 0x000028c8, 0x00008000, 0x000008a8, 0x00000080,
       0x000108e8, 0x00000000]) =
     ((0x9b9d2913, 0x982bcbca, 0xb86beac8, 0xc5a3382e, 0xaf9292fa),
      [0x000028c8, 0x00008000, 0x000008a8, 0x00000080, 0x000108e8, 0x00000000, 0x0000a000,
       0x00020080, 0x00006400, 0x00000000, 0x00040800, 0x00008800, 0x00029c10, 0x00080000,
       0x00008080, 0x00002820])"
  by code_simp

lemma sha1_empty_rounds_60:
  "fold sha1_round [60..<70]
     ((0x9b9d2913, 0x982bcbca, 0xb86beac8, 0xc5a3382e, 0xaf9292fa),
      [0x000028c8, 0x00008000, 0x000008a8, 0x00000080, 0x000108e8, 0x00000000, 0x0000a000,
       0x00020080, 0x00006400, 0x00000000, 0x00040800, 0x00008800, 0x00029c10, 0x00080000,
       0x00008080, 0x00002820]) =
     ((0x503c7ae0, 0x8ba00627, 0x39e6befc, 0xc444d07c, 0xf4dc8972),
      [0x00040800, 0x00008800, 0x00029c10, 0x00080000, 0x00008080, 0x00002820, 0x001088c0,
       0x00000000, 0x000a40c0, 0x00200080, 0x000669f0, 0x00008080, 0x00408800, 0x000882a0,
       0x0028c880, 0x00800000])"
  by code_simp

lemma sha1_empty_rounds_70:
  "fold sha1_round [70..<80]
     ((0x503c7ae0, 0x8ba00627, 0x39e6befc, 0xc444d07c, 0xf4dc8972),
      [0x00040800, 0x00008800, 0x00029c10, 0x00080000, 0x00008080, 0x00002820, 0x001088c0,
       0x00000000, 0x000a40c0, 0x00200080, 0x000669f0, 0x00008080, 0x00408800, 0x000882a0,
       0x0028c880, 0x00800000]) =
     ((0x72f480ed, 0x6e9d9f84, 0x999ae2f1, 0x852dc41a, 0xec052519),
      [0x000669f0, 0x00008080, 0x00408800, 0x000882a0, 0x0028c880, 0x00800000, 0x0008ace0,
       0x00008000, 0x0108eac0, 0x00000880, 0x00a00080, 0x02008080, 0x00641000, 0x00000000,
       0x04080aa0, 0x00882000])"
  by code_simp

lemma sha1_empty_rounds:
  "fold sha1_round [0..<80]
     ((0x67452301, 0xefcdab89, 0x98badcfe, 0x10325476, 0xc3d2e1f0),
      [0x80000000, 0x00000000, 0x00000000, 0x00000000, 0x00000000, 0x00000000, 0x00000000,
       0x00000000, 0x00000000, 0x00000000, 0x00000000, 0x00000000, 0x00000000, 0x00000000,
       0x00000000, 0x00000000]) =
     ((0x72f480ed, 0x6e9d9f84, 0x999ae2f1, 0x852dc41a, 0xec052519),
      [0x000669f0, 0x00008080, 0x00408800, 0x000882a0, 0x0028c880, 0x00800000, 0x0008ace0,
       0x00008000, 0x0108eac0, 0x00000880, 0x00a00080, 0x02008080, 0x00641000, 0x00000000,
       0x04080aa0, 0x00882000])"
proof -
  have "[0..<80] =
        [0..<10] @ [10..<20] @ [20..<30] @ [30..<40] @ [40..<50] @ [50..<60] @ [60..<70] @ [70..<80]"
    by code_simp
  then show ?thesis
    by (simp only: fold_append comp_apply
          sha1_empty_rounds_0 sha1_empty_rounds_10 sha1_empty_rounds_20 sha1_empty_rounds_30
          sha1_empty_rounds_40 sha1_empty_rounds_50 sha1_empty_rounds_60 sha1_empty_rounds_70)
qed

lemma sha1_empty_words:
  "block_words be_bytes_to_word (0x80 # replicate 63 0) =
     [0x80000000, 0x00000000, 0x00000000, 0x00000000, 0x00000000, 0x00000000, 0x00000000,
     0x00000000, 0x00000000, 0x00000000, 0x00000000, 0x00000000, 0x00000000, 0x00000000,
     0x00000000, 0x00000000]"
  by code_simp

lemma sha1_empty_compress:
  "sha1_compress (0x67452301, 0xefcdab89, 0x98badcfe, 0x10325476, 0xc3d2e1f0)
     (0x80 # replicate 63 0) =
     (0xda39a3ee, 0x5e6b4b0d, 0x3255bfef, 0x95601890, 0xafd80709)"
  by (simp add: sha1_empty_words sha1_empty_rounds)

lemma sha1_empty_padded:
  "sha1_buf (sha1_init) @ [0x80] @
     replicate (pad_zeros (length (sha1_buf (sha1_init)))) 0 @
     length_be_bytes (sha1_count (sha1_init)) =
   0x80 # replicate 63 0"
  by code_simp

lemma sha1_empty_hex:
  "hex_of_bytes (concat (map word_to_be_bytes
     [0xda39a3ee, 0x5e6b4b0d, 0x3255bfef, 0x95601890, 0xafd80709])) =
   ''da39a3ee5e6b4b0d3255bfef95601890afd80709''"
  by code_simp

lemma sha1_hexdigest_init: "sha1_hexdigest sha1_init = ''da39a3ee5e6b4b0d3255bfef95601890afd80709''"
proof -
  have "sha1_digest sha1_init =
          concat (map word_to_be_bytes
            [0xda39a3ee, 0x5e6b4b0d, 0x3255bfef, 0x95601890, 0xafd80709])"
    unfolding sha1_digest_def sha1_empty_padded
    by (simp add: absorb_one_block sha1_empty_compress del: sha1_compress.simps)
  then show ?thesis
    by (simp only: sha1_hexdigest_def sha1_empty_hex)
qed

lemma sha1_byte_rounds_0:
  "fold sha1_round [0..<10]
     ((0x67452301, 0xefcdab89, 0x98badcfe, 0x10325476, 0xc3d2e1f0),
      [0xab800000, 0x00000000, 0x00000000, 0x00000000, 0x00000000, 0x00000000, 0x00000000,
       0x00000000, 0x00000000, 0x00000000, 0x00000000, 0x00000000, 0x00000000, 0x00000000,
       0x00000000, 0x00000008]) =
     ((0x55250f82, 0xac7d4aac, 0x479bb443, 0x013ab34c, 0x5de5482d),
      [0x00000000, 0x00000000, 0x00000000, 0x00000000, 0x00000000, 0x00000008, 0x57000001,
       0x00000000, 0x00000010, 0xae000002, 0x00000000, 0x00000020, 0x5c000005, 0x00000010,
       0xae000042, 0xb800000a])"
  by code_simp

lemma sha1_byte_rounds_10:
  "fold sha1_round [10..<20]
     ((0x55250f82, 0xac7d4aac, 0x479bb443, 0x013ab34c, 0x5de5482d),
      [0x00000000, 0x00000000, 0x00000000, 0x00000000, 0x00000000, 0x00000008, 0x57000001,
       0x00000000, 0x00000010, 0xae000002, 0x00000000, 0x00000020, 0x5c000005, 0x00000010,
       0xae000042, 0xb800000a]) =
     ((0x59f188ae, 0xa5c7c6b8, 0xe43c7cfd, 0xd5456c85, 0xe45e0076),
      [0x00000000, 0x00000020, 0x5c000005, 0x00000010, 0xae000042, 0xb800000a, 0x00000000,
       0x00000080, 0x70000015, 0x00000050, 0x16000108, 0xe000001a, 0xf2000007, 0x00000200,
       0xc0000015, 0xb800014a])"
  by code_simp

lemma sha1_byte_rounds_20:
  "fold sha1_round [20..<30]
     ((0x59f188ae, 0xa5c7c6b8, 0xe43c7cfd, 0xd5456c85, 0xe45e0076),
      [0x00000000, 0x00000020, 0x5c000005, 0x00000010, 0xae000042, 0xb800000a, 0x00000000,
       0x00000080, 0x70000015, 0x00000050, 0x16000108, 0xe000001a, 0xf2000007, 0x00000200,
       0xc0000015, 0xb800014a]) =
     ((0xcc2dabdd, 0xa02ef42e, 0x82c5283d, 0x9a30919f, 0x7dbbdf85),
      [0x16000108, 0xe000001a, 0xf2000007, 0x00000200, 0xc0000015, 0xb800014a, 0x58000420,
       0x800000eb, 0xb800000a, 0x00000840, 0xb800015d, 0x00000500, 0x60001081, 0x0000018e,
       0x7c00007a, 0x00002040])"
  by code_simp

lemma sha1_byte_rounds_30:
  "fold sha1_round [30..<40]
     ((0xcc2dabdd, 0xa02ef42e, 0x82c5283d, 0x9a30919f, 0x7dbbdf85),
      [0x16000108, 0xe000001a, 0xf2000007, 0x00000200, 0xc0000015, 0xb800014a, 0x58000420,
       0x800000eb, 0xb800000a, 0x00000840, 0xb800015d, 0x00000500, 0x60001081, 0x0000018e,
       0x7c00007a, 0x00002040]) =
     ((0x340fdc07, 0xc3497d9f, 0x99d1203b, 0x1c576c7d, 0x04608562),
      [0xb800015d, 0x00000500, 0x60001081, 0x0000018e, 0x7c00007a, 0x00002040, 0xb8000116,
       0x38001441, 0x1400421f, 0x00000eb8, 0x800001eb, 0x58008460, 0x380015d1, 0x00005200,
       0xc0010843, 0x000019a0])"
  by code_simp

lemma sha1_byte_rounds_40:
  "fold sha1_round [40..<50]
     ((0x340fdc07, 0xc3497d9f, 0x99d1203b, 0x1c576c7d, 0x04608562),
      [0xb800015d, 0x00000500, 0x60001081, 0x0000018e, 0x7c00007a, 0x00002040, 0xb8000116,
       0x38001441, 0x1400421f, 0x00000eb8, 0x800001eb, 0x58008460, 0x380015d1, 0x00005200,
       0xc0010843, 0x000019a0]) =
     ((0x8dc174fa, 0x03f03ccb, 0xa100c4b9, 0xd799fa44, 0xdf070e15),
      [0x800001eb, 0x58008460, 0x380015d1, 0x00005200, 0xc0010843, 0x000019a0, 0x98000387,
       0x800204eb, 0x38001161, 0x80014c53, 0xf80420ac, 0x0000eec0, 0xd8000e33, 0x800847eb,
       0x18015d66, 0x00050000])"
  by code_simp

lemma sha1_byte_rounds_50:
  "fold sha1_round [50..<60]
     ((0x8dc174fa, 0x03f03ccb, 0xa100c4b9, 0xd799fa44, 0xdf070e15),
      [0x800001eb, 0x58008460, 0x380015d1, 0x00005200, 0xc0010843, 0x000019a0, 0x98000387,
       0x800204eb, 0x38001161, 0x80014c53, 0xf80420ac, 0x0000eec0, 0xd8000e33, 0x800847eb,
       0x18015d66, 0x00050000]) =
     ((0xc01751f7, 0x3d9bb107, 0x325f9da6, 0xbf032f10, 0x804a3fc5),
      [0xf80420ac, 0x0000eec0, 0xd8000e33, 0x800847eb, 0x18015d66, 0x00050000, 0x00108560,
       0x80018eab, 0x00007a7c, 0x00204000, 0x000116b8, 0x001441b8, 0x70421f01, 0x000ebc00,
       0x8001ea2b, 0xe0846672])"
  by code_simp

lemma sha1_byte_rounds_60:
  "fold sha1_round [60..<70]
     ((0xc01751f7, 0x3d9bb107, 0x325f9da6, 0xbf032f10, 0x804a3fc5),
      [0xf80420ac, 0x0000eec0, 0xd8000e33, 0x800847eb, 0x18015d66, 0x00050000, 0x00108560,
       0x80018eab, 0x00007a7c, 0x00204000, 0x000116b8, 0x001441b8, 0x70421f01, 0x000ebc00,
       0x8001ea2b, 0xe0846672]) =
     ((0xc40afdf7, 0x017c06e9, 0xc4ffcf46, 0xdcf61c95, 0x5432a102),
      [0x000116b8, 0x001441b8, 0x70421f01, 0x000ebc00, 0x8001ea2b, 0xe0846672, 0x4015d1c6,
       0x00520600, 0x4108473e, 0x8019af2b, 0xd003820e, 0x8204eb2b, 0x00117438, 0x614c55af,
       0x8420ac53, 0x00eee700])"
  by code_simp

lemma sha1_byte_rounds_70:
  "fold sha1_round [70..<80]
     ((0xc40afdf7, 0x017c06e9, 0xc4ffcf46, 0xdcf61c95, 0x5432a102),
      [0x000116b8, 0x001441b8, 0x70421f01, 0x000ebc00, 0x8001ea2b, 0xe0846672, 0x4015d1c6,
       0x00520600, 0x4108473e, 0x8019af2b, 0xd003820e, 0x8204eb2b, 0x00117438, 0x614c55af,
       0x8420ac53, 0x00eee700]) =
     ((0x973ecf16, 0xe4974b74, 0x61a04e21, 0x77cbe5a4, 0x83642fa6),
      [0xd003820e, 0x8204eb2b, 0x00117438, 0x614c55af, 0x8420ac53, 0x00eee700, 0xa00e3650,
       0x0847fd80, 0x415d2048, 0x85000e13, 0x908564ab, 0x818e2b2b, 0x007a6970, 0x20405500,
       0x6117b097, 0x1441a1e0])"
  by code_simp

lemma sha1_byte_rounds:
  "fold sha1_round [0..<80]
     ((0x67452301, 0xefcdab89, 0x98badcfe, 0x10325476, 0xc3d2e1f0),
      [0xab800000, 0x00000000, 0x00000000, 0x00000000, 0x00000000, 0x00000000, 0x00000000,
       0x00000000, 0x00000000, 0x00000000, 0x00000000, 0x00000000, 0x00000000, 0x00000000,
       0x00000000, 0x00000008]) =
     ((0x973ecf16, 0xe4974b74, 0x61a04e21, 0x77cbe5a4, 0x83642fa6),
      [0xd003820e, 0x8204eb2b, 0x00117438, 0x614c55af, 0x8420ac53, 0x00eee700, 0xa00e3650,
       0x0847fd80, 0x415d2048, 0x85000e13, 0x908564ab, 0x818e2b2b, 0x007a6970, 0x20405500,
       0x6117b097, 0x1441a1e0])"
proof -
  have "[0..<80] =
        [0..<10] @ [10..<20] @ [20..<30] @ [30..<40] @ [40..<50] @ [50..<60] @ [60..<70] @ [70..<80]"
    by code_simp
  then show ?thesis
    by (simp only: fold_append comp_apply
          sha1_byte_rounds_0 sha1_byte_rounds_10 sha1_byte_rounds_20 sha1_byte_rounds_30
          sha1_byte_rounds_40 sha1_byte_rounds_50 sha1_byte_rounds_60 sha1_byte_rounds_70)
qed

lemma sha1_byte_words:
  "block_words be_bytes_to_word (0xAB # 0x80 # replicate 61 0 @ [8]) =
     [0xab800000, 0x00000000, 0x00000000, 0x00000000, 0x00000000, 0x00000000, 0x00000000,
     0x00000000, 0x00000000, 0x00000000, 0x00000000, 0x00000000, 0x00000000, 0x00000000,
     0x00000000, 0x00000008]"
  by code_simp

lemma sha1_byte_compress:
  "sha1_compress (0x67452301, 0xefcdab89, 0x98badcfe, 0x10325476, 0xc3d2e1f0)
     (0xAB # 0x80 # replicate 61 0 @ [8]) =
     (0xfe83f217, 0xd464f6fd, 0xfa5b2b1f, 0x87fe3a1a, 0x47371196)"
  by (simp add: sha1_byte_words sha1_byte_rounds)

lemma sha1_byte_padded:
  "sha1_buf (sha1_update sha1_init [0xAB]) @ [0x80] @
     replicate (pad_zeros (length (sha1_buf (sha1_update sha1_init [0xAB])))) 0 @
     length_be_bytes (sha1_count (sha1_update sha1_init [0xAB])) =
   0xAB # 0x80 # replicate 61 0 @ [8]"
  by code_simp

lemma sha1_byte_hex:
  "hex_of_bytes (concat (map word_to_be_bytes
     [0xfe83f217, 0xd464f6fd, 0xfa5b2b1f, 0x87fe3a1a, 0x47371196])) =
   ''fe83f217d464f6fdfa5b2b1f87fe3a1a47371196''"
  by code_simp

lemma sha1_update_byte_regs:
  "sha1_regs (sha1_update sha1_init [0xAB]) =
     (0x67452301, 0xefcdab89, 0x98badcfe, 0x10325476, 0xc3d2e1f0)"
  by (simp add: sha1_update_def sha1_init_def absorb_short)

lemma sha1_hex_AB: "sha1_hex [0xAB] = ''fe83f217d464f6fdfa5b2b1f87fe3a1a47371196''"
proof -
  have "sha1_digest (sha1_update sha1_init [0xAB]) =
          concat (map word_to_be_bytes
            [0xfe83f217, 0xd464f6fd, 0xfa5b2b1f, 0x87fe3a1a, 0x47371196])"
    unfolding sha1_digest_def sha1_byte_padded
    by (simp add: absorb_one_block sha1_update_byte_regs sha1_byte_compress
          del: sha1_compress.simps)
  then show ?thesis
    by (simp only: sha1_hex_def sha1_hexdigest_def sha1_byte_hex)
qed

section \<open>The read and write calls\<close>

lemma read_request_default: "read_request r default_chunk_size = Inr (Some 1048576)"
  by (simp add: read_request_def default_chunk_size_def)

lemma read_request_zero: "read_request r 0 = Inr (Some 0)"
  by (simp add: read_request_def)

lemma read_request_Some: "read_request r n = Inr (Some k) \<Longrightarrow> k = nat n \<and> 0 \<le> n"
  by (auto simp: read_request_def split: if_splits)

lemma read_chunk_Inr:
  "read_chunk r f pos n = Inr chunk \<Longrightarrow> chunk = take (length chunk) (drop pos (content f))"
  by (auto simp: read_chunk_def Let_def min_def split: sum.splits option.splits if_splits)

lemma read_chunk_rest:
  assumes "read_chunk r f pos n = Inr chunk"
  shows "chunk @ drop (pos + length chunk) (content f) = drop pos (content f)"
proof -
  have "drop (pos + length chunk) (content f) = drop (length chunk) (drop pos (content f))"
    by (simp add: add.commute)
  with read_chunk_Inr [OF assms] show ?thesis
    by (metis append_take_drop_id)
qed

lemma read_chunk_Nil:
  assumes "read_chunk r f pos n = Inr []" and "n \<noteq> 0"
  shows "drop pos (content f) = []"
proof (cases "read_request r n")
  case (Inl e)
  with assms(1) show ?thesis by (simp add: read_chunk_def)
next
  case (Inr req)
  show ?thesis
  proof (cases req)
    case None
    with Inr assms(1) show ?thesis
      by (auto simp: read_chunk_def Let_def split: option.splits if_splits)
  next
    case (Some k)
    with Inr read_request_Some [of r n k] assms(2) have "0 < k" by auto
    with Some Inr assms(1) show ?thesis
      by (auto simp: read_chunk_def Let_def split: option.splits if_splits)
  qed
qed

lemma read_chunk_zero: "read_chunk r f pos 0 = Inr []"
  by (auto simp: read_chunk_def read_request_zero split: option.splits)

lemma read_chunk_Inl:
  "read_chunk r f pos n = Inl e \<Longrightarrow> read_request r n = Inr req \<Longrightarrow>
   e = OSError \<and> drop pos (content f) \<noteq> []"
  by (auto simp: read_chunk_def Let_def split: option.splits if_splits)

lemma read_chunk_healthy:
  "bad_offset f = None \<Longrightarrow> read_request r n = Inr req \<Longrightarrow>
   read_chunk r f pos n =
     Inr (case req of None \<Rightarrow> drop pos (content f) | Some k \<Rightarrow> take k (drop pos (content f)))"
  by (simp add: read_chunk_def)

lemma read_chunk_at_end:
  "content f = [] \<Longrightarrow> read_request r n = Inr req \<Longrightarrow> read_chunk r f pos n = Inr []"
  by (auto simp: read_chunk_def split: option.splits)

lemma write_chunk_None:
  "write_chunk d c = (None, d') \<Longrightarrow> d' = d\<lparr>content := content d @ c\<rparr>"
  by (auto simp: write_chunk_def split: option.splits if_splits)

lemma write_chunk_Some:
  "write_chunk d c = (Some e, d') \<Longrightarrow> c \<noteq> [] \<Longrightarrow>
   e = OSError \<and> (\<exists>k < length c. d' = d\<lparr>content := content d @ take k c\<rparr>)"
proof -
  assume a: "write_chunk d c = (Some e, d')" and ne: "c \<noteq> []"
  then obtain x where x: "capacity d = Some x" "\<not> length (content d) + length c \<le> x"
    "e = OSError" "d' = d\<lparr>content := content d @ take (x - length (content d)) c\<rparr>"
    by (auto simp: write_chunk_def split: option.splits if_splits)
  from ne have "0 < length c" by simp
  with x(2) have "x - length (content d) < length c" by arith
  with x show ?thesis by blast
qed

lemma write_chunk_unbounded:
  "capacity d = None \<Longrightarrow> write_chunk d c = (None, d\<lparr>content := content d @ c\<rparr>)"
  by (simp add: write_chunk_def)

lemma put_no_links: "links f = [] \<Longrightarrow> put fs p f = fs(p \<mapsto> f)"
  by (rule ext) (simp add: put_def)

lemma put_same: "put fs p f p = Some f"
  by (simp add: put_def)

lemma put_other: "q \<noteq> p \<Longrightarrow> q \<notin> set (links f) \<Longrightarrow> put fs p f q = fs q"
  by (simp add: put_def)

lemma put_content:
  "put fs p f q = Some g \<Longrightarrow> q = p \<or> q \<in> set (links f) \<Longrightarrow> content g = content f"
  by (auto simp: put_def split: if_splits)

lemma put_put: "links f' = links f \<Longrightarrow> put (put fs p f) p f' = put fs p f'"
  by (rule ext) (simp add: put_def)

lemma open_wb_Inr:
  "open_wb fs p = Inr (d, fs1) \<Longrightarrow>
   content d = [] \<and> fs1 = put fs p d \<and>
   (case fs p of None \<Rightarrow> d = regular_file []
    | Some f \<Rightarrow> \<not> write_denied f \<and> d = f\<lparr>content := []\<rparr>)"
  by (auto simp: open_wb_def regular_file_def put_no_links split: option.splits if_splits)

lemma open_rb_Inr: "open_rb fs p = Inr f \<Longrightarrow> fs p = Some f \<and> \<not> read_denied f"
  by (auto simp: open_rb_def split: option.splits if_splits)

lemma usable_target_write:
  assumes "usable_target fs p"
  shows "\<exists>d. open_wb fs p = Inr (d, fs(p \<mapsto> d)) \<and> usable d \<and> content d = [] \<and>
           stat_fails d = (case fs p of None \<Rightarrow> False | Some f \<Rightarrow> stat_fails f) \<and>
           reported_size d = (case fs p of None \<Rightarrow> None | Some f \<Rightarrow> reported_size f)"
  using assms
  by (cases "fs p")
     (simp_all add: usable_target_def open_wb_def usable_def regular_file_def put_no_links)

lemma ordinary_usable: "ordinary f \<Longrightarrow> usable f"
  by (simp add: ordinary_def usable_def)

lemma ordinary_target_usable: "ordinary_target fs p \<Longrightarrow> usable_target fs p"
  by (cases "fs p") (simp_all add: ordinary_target_def usable_target_def ordinary_usable)

lemma ordinary_target_write:
  assumes "ordinary_target fs p"
  shows "\<exists>d. open_wb fs p = Inr (d, fs(p \<mapsto> d)) \<and> ordinary d \<and> content d = []"
  using assms
  by (cases "fs p")
     (simp_all add: ordinary_target_def open_wb_def ordinary_def regular_file_def put_no_links)

lemma size_or_none_ordinary:
  "fs p = Some f \<Longrightarrow> \<not> stat_fails f \<Longrightarrow> reported_size f = None \<Longrightarrow>
   size_or_none fs p = Some (length (content f))"
  by (simp add: size_or_none_def getsize_def)



section \<open>The two loops\<close>

text \<open>
  A loop that returns has transferred a sequence of non-empty chunks whose concatenation is
  what was left of the source; a loop that raises has written a proper prefix of it; on an
  undamaged source and an unbounded destination the loop returns.
\<close>

lemma copy_loop_success:
  "copy_loop src n pos dst md5 sha1 tot progress = (Inr (md5', sha1'), progress', dst') \<Longrightarrow>
   \<exists>chunks. (\<forall>c \<in> set chunks. c \<noteq> []) \<and>
     concat chunks = (if n = 0 then [] else drop pos (content src)) \<and>
     dst' = dst\<lparr>content := content dst @ concat chunks\<rparr> \<and>
     md5' = foldl md5_update md5 chunks \<and>
     sha1' = foldl sha1_update sha1 chunks \<and>
     progress' = progress @ running_totals tot chunks"
proof (induction src n pos dst md5 sha1 tot progress rule: copy_loop.induct)
  case (1 src n pos dst md5 sha1 tot progress)
  note run = "1.prems"
  show ?case
  proof (cases "read_chunk Raw src pos n")
    case (Inl e)
    with run show ?thesis by (simp add: copy_loop.simps [of src n pos])
  next
    case (Inr chunk)
    show ?thesis
    proof (cases "chunk = []")
      case True
      with Inr run have res: "md5' = md5" "sha1' = sha1" "progress' = progress" "dst' = dst"
        by (simp_all add: copy_loop.simps [of src n pos])
      have "n \<noteq> 0 \<Longrightarrow> drop pos (content src) = []"
        using Inr True read_chunk_Nil by blast
      with res show ?thesis
        by (intro exI [of _ "[]"]) simp
    next
      case False
      obtain r d1 where w: "write_chunk dst chunk = (r, d1)"
        by (cases "write_chunk dst chunk")
      show ?thesis
      proof (cases r)
        case (Some e)
        with Inr False w run show ?thesis by (simp add: copy_loop.simps [of src n pos])
      next
        case None
        with w have d1: "d1 = dst\<lparr>content := content dst @ chunk\<rparr>"
          using write_chunk_None by blast
        from Inr False w None run
        have rec: "copy_loop src n (pos + length chunk) d1 (md5_update md5 chunk)
                     (sha1_update sha1 chunk) (tot + length chunk)
                     (progress @ [tot + length chunk]) = (Inr (md5', sha1'), progress', dst')"
          by (simp add: copy_loop.simps [of src n pos])
        from "1.IH" [OF Inr False w [symmetric] None rec]
        obtain chunks where ch: "\<forall>c \<in> set chunks. c \<noteq> []"
          "concat chunks = (if n = 0 then [] else drop (pos + length chunk) (content src))"
          "dst' = d1\<lparr>content := content d1 @ concat chunks\<rparr>"
          "md5' = foldl md5_update (md5_update md5 chunk) chunks"
          "sha1' = foldl sha1_update (sha1_update sha1 chunk) chunks"
          "progress' = (progress @ [tot + length chunk])
                          @ running_totals (tot + length chunk) chunks"
          by blast
        have n0: "n \<noteq> 0"
          using Inr False read_chunk_zero [of Raw src pos] by auto
        have "(\<forall>c \<in> set (chunk # chunks). c \<noteq> []) \<and>
              concat (chunk # chunks) = (if n = 0 then [] else drop pos (content src)) \<and>
              dst' = dst\<lparr>content := content dst @ concat (chunk # chunks)\<rparr> \<and>
              md5' = foldl md5_update md5 (chunk # chunks) \<and>
              sha1' = foldl sha1_update sha1 (chunk # chunks) \<and>
              progress' = progress @ running_totals tot (chunk # chunks)"
          using ch False n0 d1 read_chunk_rest [OF Inr] by simp
        then show ?thesis by blast
      qed
    qed
  qed
qed

lemma copy_loop_failure:
  "copy_loop src n pos dst md5 sha1 tot progress = (Inl e, progress', dst') \<Longrightarrow>
   read_request Raw n = Inr req \<Longrightarrow>
   \<exists>written rest. dst' = dst\<lparr>content := content dst @ written\<rparr> \<and>
     drop pos (content src) = written @ rest \<and> rest \<noteq> [] \<and> e = OSError"
proof (induction src n pos dst md5 sha1 tot progress rule: copy_loop.induct)
  case (1 src n pos dst md5 sha1 tot progress)
  note run = "1.prems"(1) and req = "1.prems"(2)
  show ?case
  proof (cases "read_chunk Raw src pos n")
    case (Inl e')
    with run have "e = e'" "dst' = dst"
      by (simp_all add: copy_loop.simps [of src n pos])
    with read_chunk_Inl [OF Inl req]
    have "dst' = dst\<lparr>content := content dst @ []\<rparr> \<and>
          drop pos (content src) = [] @ drop pos (content src) \<and>
          drop pos (content src) \<noteq> [] \<and> e = OSError"
      by simp
    then show ?thesis by blast
  next
    case (Inr chunk)
    show ?thesis
    proof (cases "chunk = []")
      case True
      with Inr run show ?thesis by (simp add: copy_loop.simps [of src n pos])
    next
      case False
      obtain r d1 where w: "write_chunk dst chunk = (r, d1)"
        by (cases "write_chunk dst chunk")
      show ?thesis
      proof (cases r)
        case (Some e')
        with Inr False w run have res: "e = e'" "dst' = d1"
          by (simp_all add: copy_loop.simps [of src n pos])
        from write_chunk_Some [OF w [unfolded Some] False]
        obtain k where k: "e' = OSError" "k < length chunk"
          "d1 = dst\<lparr>content := content dst @ take k chunk\<rparr>"
          by blast
        have "drop pos (content src) = take k chunk @ (drop k chunk @ drop (pos + length chunk) (content src))"
          using read_chunk_rest [OF Inr] by (metis append_assoc append_take_drop_id)
        moreover have "drop k chunk @ drop (pos + length chunk) (content src) \<noteq> []"
          using k(2) by simp
        ultimately show ?thesis
          using res k by blast
      next
        case None
        with w have d1: "d1 = dst\<lparr>content := content dst @ chunk\<rparr>"
          using write_chunk_None by blast
        from Inr False w None run
        have rec: "copy_loop src n (pos + length chunk) d1 (md5_update md5 chunk)
                     (sha1_update sha1 chunk) (tot + length chunk)
                     (progress @ [tot + length chunk]) = (Inl e, progress', dst')"
          by (simp add: copy_loop.simps [of src n pos])
        from "1.IH" [OF Inr False w [symmetric] None rec req]
        obtain written rest where wr: "dst' = d1\<lparr>content := content d1 @ written\<rparr>"
          "drop (pos + length chunk) (content src) = written @ rest" "rest \<noteq> []" "e = OSError"
          by blast
        have "dst' = dst\<lparr>content := content dst @ (chunk @ written)\<rparr>"
          using wr(1) d1 by simp
        moreover have "drop pos (content src) = (chunk @ written) @ rest"
          using read_chunk_rest [OF Inr] wr(2) by simp
        ultimately show ?thesis
          using wr(3,4) by blast
      qed
    qed
  qed
qed

lemma copy_loop_healthy:
  "bad_offset src = None \<Longrightarrow> capacity dst = None \<Longrightarrow> read_request Raw n = Inr req \<Longrightarrow>
   \<exists>r progress' dst'. copy_loop src n pos dst md5 sha1 tot progress = (Inr r, progress', dst')"
proof (induction src n pos dst md5 sha1 tot progress rule: copy_loop.induct)
  case (1 src n pos dst md5 sha1 tot progress)
  define chunk where
    "chunk = (case req of None \<Rightarrow> drop pos (content src)
              | Some k \<Rightarrow> take k (drop pos (content src)))"
  have rd: "read_chunk Raw src pos n = Inr chunk"
    using "1.prems"(1,3) by (simp add: read_chunk_healthy chunk_def)
  show ?case
  proof (cases "chunk = []")
    case True
    with rd show ?thesis by (simp add: copy_loop.simps [of src n pos])
  next
    case False
    define d1 where "d1 = dst\<lparr>content := content dst @ chunk\<rparr>"
    have w: "write_chunk dst chunk = (None, d1)"
      using "1.prems"(2) by (simp add: write_chunk_unbounded d1_def)
    have "capacity d1 = None"
      using "1.prems"(2) by (simp add: d1_def)
    from "1.IH" [OF rd False w [symmetric] refl "1.prems"(1) this "1.prems"(3)]
    show ?thesis
      using rd False w by (simp add: copy_loop.simps [of src n pos])
  qed
qed

lemma copy_loop_refused:
  "read_request Raw n = Inl e \<Longrightarrow>
   copy_loop src n pos dst md5 sha1 tot progress = (Inl e, progress, dst)"
  by (simp add: copy_loop.simps [of src n pos] read_chunk_def)

lemma hash_loop_refused:
  "read_request Buffered n = Inl e \<Longrightarrow>
   hash_loop f n pos md5 sha1 tot progress = (Inl e, progress)"
  by (simp add: hash_loop.simps [of f n pos] read_chunk_def)

lemma copy_loop_empty:
  assumes "content f = []" and "read_request Raw n = Inr req"
  shows "copy_loop f n 0 d md5 sha1 0 [] = (Inr (md5, sha1), [], d)"
  using assms
  by (simp add: copy_loop.simps [of f n 0] read_chunk_at_end)

lemma copy_loop_three_chunks:
  assumes "content f = replicate 3145728 b" and "bad_offset f = None" and "capacity d = None"
  shows "fst (snd (copy_loop f 1048576 0 d md5 sha1 0 [])) = [1048576, 2097152, 3145728]"
  using assms
  by (simp add: copy_loop.simps read_chunk_def read_request_def write_chunk_def)

lemma hash_loop_success:
  "hash_loop f n pos md5 sha1 tot progress = (Inr (md5', sha1'), progress') \<Longrightarrow>
   \<exists>chunks. (\<forall>c \<in> set chunks. c \<noteq> []) \<and>
     concat chunks = (if n = 0 then [] else drop pos (content f)) \<and>
     md5' = foldl md5_update md5 chunks \<and>
     sha1' = foldl sha1_update sha1 chunks \<and>
     progress' = progress @ running_totals tot chunks"
proof (induction f n pos md5 sha1 tot progress rule: hash_loop.induct)
  case (1 f n pos md5 sha1 tot progress)
  note run = "1.prems"
  show ?case
  proof (cases "read_chunk Buffered f pos n")
    case (Inl e)
    with run show ?thesis by (simp add: hash_loop.simps [of f n pos])
  next
    case (Inr chunk)
    show ?thesis
    proof (cases "chunk = []")
      case True
      with Inr run have res: "md5' = md5" "sha1' = sha1" "progress' = progress"
        by (simp_all add: hash_loop.simps [of f n pos])
      have "n \<noteq> 0 \<Longrightarrow> drop pos (content f) = []"
        using Inr True read_chunk_Nil by blast
      with res show ?thesis
        by (intro exI [of _ "[]"]) simp
    next
      case False
      from Inr False run
      have rec: "hash_loop f n (pos + length chunk) (md5_update md5 chunk)
                   (sha1_update sha1 chunk) (tot + length chunk)
                   (progress @ [tot + length chunk]) = (Inr (md5', sha1'), progress')"
        by (simp add: hash_loop.simps [of f n pos])
      from "1.IH" [OF Inr False rec]
      obtain chunks where ch: "\<forall>c \<in> set chunks. c \<noteq> []"
        "concat chunks = (if n = 0 then [] else drop (pos + length chunk) (content f))"
        "md5' = foldl md5_update (md5_update md5 chunk) chunks"
        "sha1' = foldl sha1_update (sha1_update sha1 chunk) chunks"
        "progress' = (progress @ [tot + length chunk])
                        @ running_totals (tot + length chunk) chunks"
        by blast
      have n0: "n \<noteq> 0"
        using Inr False read_chunk_zero [of Buffered f pos] by auto
      have "(\<forall>c \<in> set (chunk # chunks). c \<noteq> []) \<and>
            concat (chunk # chunks) = (if n = 0 then [] else drop pos (content f)) \<and>
            md5' = foldl md5_update md5 (chunk # chunks) \<and>
            sha1' = foldl sha1_update sha1 (chunk # chunks) \<and>
            progress' = progress @ running_totals tot (chunk # chunks)"
        using ch False n0 read_chunk_rest [OF Inr] by simp
      then show ?thesis by blast
    qed
  qed
qed

lemma hash_loop_healthy:
  "bad_offset f = None \<Longrightarrow> read_request Buffered n = Inr req \<Longrightarrow>
   \<exists>r progress'. hash_loop f n pos md5 sha1 tot progress = (Inr r, progress')"
proof (induction f n pos md5 sha1 tot progress rule: hash_loop.induct)
  case (1 f n pos md5 sha1 tot progress)
  define chunk where
    "chunk = (case req of None \<Rightarrow> drop pos (content f)
              | Some k \<Rightarrow> take k (drop pos (content f)))"
  have rd: "read_chunk Buffered f pos n = Inr chunk"
    using "1.prems" by (simp add: read_chunk_healthy chunk_def)
  show ?case
  proof (cases "chunk = []")
    case True
    with rd show ?thesis by (simp add: hash_loop.simps [of f n pos])
  next
    case False
    from "1.IH" [OF rd False "1.prems"]
    show ?thesis
      using rd False by (simp add: hash_loop.simps [of f n pos])
  qed
qed

section \<open>What hash_file and image_and_hash return\<close>

text \<open>
  A run of \<^verbatim>\<open>hash_file\<close> that returns has hashed the content of the file, whatever the
  chunk size; on a readable, undamaged file it returns when the size is one the read accepts.
  A run of \<^verbatim>\<open>image_and_hash\<close> that returns has written to the destination the bytes it
  hashed: those of the source, or none when the chunk size is zero or the destination is the
  source file itself.
\<close>

lemma hash_file_Inr:
  assumes "fst (hash_file p n fs) = Inr (m, s)" and "fs p = Some f"
  shows "m = md5_hex (if n = 0 then [] else content f) \<and>
         s = sha1_hex (if n = 0 then [] else content f)"
proof -
  from assms have op: "open_rb fs p = Inr f"
    by (auto simp: hash_file_def open_rb_def split: if_splits)
  obtain r progress where run: "hash_loop f n 0 md5_init sha1_init 0 [] = (r, progress)"
    by (cases "hash_loop f n 0 md5_init sha1_init 0 []")
  with assms(1) op obtain md5 sha1 where r: "r = Inr (md5, sha1)"
    and ms: "m = md5_hexdigest md5" "s = sha1_hexdigest sha1"
    by (cases r) (auto simp: hash_file_def)
  from hash_loop_success [OF run [unfolded r]]
  obtain chunks where ch: "concat chunks = (if n = 0 then [] else drop 0 (content f))"
    "md5 = foldl md5_update md5_init chunks" "sha1 = foldl sha1_update sha1_init chunks"
    by blast
  from ch(1) have cc: "concat chunks = (if n = 0 then [] else content f)"
    by simp
  have "md5_hexdigest md5 = md5_hex (concat chunks)"
    using ch(2) by (simp add: foldl_md5_update_init md5_hex_def)
  moreover have "sha1_hexdigest sha1 = sha1_hex (concat chunks)"
    using ch(3) by (simp add: foldl_sha1_update_init sha1_hex_def)
  ultimately show ?thesis
    using ms unfolding cc by simp
qed

lemma hash_file_healthy:
  assumes "fs p = Some f" and "\<not> read_denied f" and "bad_offset f = None"
    and "read_request Buffered n = Inr req"
  shows "fst (hash_file p n fs) =
           Inr (md5_hex (if n = 0 then [] else content f),
                sha1_hex (if n = 0 then [] else content f))"
proof -
  have op: "open_rb fs p = Inr f"
    using assms by (simp add: open_rb_def)
  obtain r progress where run: "hash_loop f n 0 md5_init sha1_init 0 [] = (Inr r, progress)"
    using hash_loop_healthy [OF assms(3,4)] by blast
  obtain md5 sha1 where r: "r = (md5, sha1)" by (cases r)
  have ret: "fst (hash_file p n fs) = Inr (md5_hexdigest md5, sha1_hexdigest sha1)"
    using op run r by (simp add: hash_file_def)
  from hash_file_Inr [OF ret assms(1)] ret show ?thesis
    by simp
qed

lemma hash_file_default:
  assumes "fs p = Some f" and "\<not> read_denied f" and "bad_offset f = None"
  shows "fst (hash_file p default_chunk_size fs) = Inr (md5_hex (content f), sha1_hex (content f))"
  using hash_file_healthy [of fs p f default_chunk_size "Some 1048576"] assms
    read_request_default [of Buffered]
  by (simp add: default_chunk_size_def)

lemma not_same_file:
  assumes "\<not> same_file fs src out" and "open_wb fs out = Inr (d, fs1)"
  shows "src \<noteq> out \<and> src \<notin> set (links d)"
  using assms
  by (auto simp: same_file_def open_wb_def regular_file_def split: option.splits if_splits)

lemma copy_stream_success:
  assumes "copy_stream src out n fs = (Inr (md5, sha1), progress, fs')"
  shows "\<exists>f d chunks.
           open_rb fs src = Inr f \<and> open_wb fs out = Inr (d, put fs out d) \<and>
           fs' = put fs out (d\<lparr>content := concat chunks\<rparr>) \<and>
           concat chunks =
             (if n = 0 \<or> src = out \<or> src \<in> set (links d) then [] else content f) \<and>
           (\<forall>c \<in> set chunks. c \<noteq> []) \<and>
           md5 = foldl md5_update md5_init chunks \<and>
           sha1 = foldl sha1_update sha1_init chunks \<and>
           progress = running_totals 0 chunks"
proof -
  from assms obtain f where f: "open_rb fs src = Inr f"
    by (cases "open_rb fs src") (simp_all add: copy_stream_def)
  from assms f obtain d fs1 where d: "open_wb fs out = Inr (d, fs1)"
    by (cases "open_wb fs out") (auto simp: copy_stream_def)
  note dd = open_wb_Inr [OF d]
  define rd where "rd = (case fs1 src of None \<Rightarrow> f | Some g \<Rightarrow> g)"
  have crd: "content rd = (if src = out \<or> src \<in> set (links d) then [] else content f)"
    using dd open_rb_Inr [OF f] by (simp add: rd_def put_def)
  obtain r pr d' where run: "copy_loop rd n 0 d md5_init sha1_init 0 [] = (r, pr, d')"
    by (cases "copy_loop rd n 0 d md5_init sha1_init 0 []")
  from assms f d run have res: "r = Inr (md5, sha1)" "pr = progress" "fs' = put fs1 out d'"
    by (simp_all add: copy_stream_def rd_def)
  from copy_loop_success [OF run [unfolded res(1)]]
  obtain chunks where ch: "\<forall>c \<in> set chunks. c \<noteq> []"
    "concat chunks = (if n = 0 then [] else drop 0 (content rd))"
    "d' = d\<lparr>content := content d @ concat chunks\<rparr>"
    "md5 = foldl md5_update md5_init chunks" "sha1 = foldl sha1_update sha1_init chunks"
    "pr = [] @ running_totals 0 chunks"
    by blast
  have cc: "concat chunks =
              (if n = 0 \<or> src = out \<or> src \<in> set (links d) then [] else content f)"
    using ch(2) crd by simp
  have d': "d' = d\<lparr>content := concat chunks\<rparr>"
    using ch(3) dd by simp
  have "fs' = put fs out (d\<lparr>content := concat chunks\<rparr>)"
    using res(3) dd d' put_put [of "d\<lparr>content := concat chunks\<rparr>" d fs out] by simp
  moreover have "open_wb fs out = Inr (d, put fs out d)"
    using d dd by simp
  ultimately have "open_rb fs src = Inr f \<and> open_wb fs out = Inr (d, put fs out d) \<and>
           fs' = put fs out (d\<lparr>content := concat chunks\<rparr>) \<and>
           concat chunks =
             (if n = 0 \<or> src = out \<or> src \<in> set (links d) then [] else content f) \<and>
           (\<forall>c \<in> set chunks. c \<noteq> []) \<and>
           md5 = foldl md5_update md5_init chunks \<and>
           sha1 = foldl sha1_update sha1_init chunks \<and>
           progress = running_totals 0 chunks"
    using f cc ch(1,4,5,6) res(2) by simp
  then show ?thesis by blast
qed

lemma image_and_hash_Inr:
  assumes "image_and_hash src out n fs = (Inr (m, s, ssz, osz), progress, fs')"
  shows "\<exists>md5 sha1. copy_stream src out n fs = (Inr (md5, sha1), progress, fs') \<and>
           m = md5_hexdigest md5 \<and> s = sha1_hexdigest sha1 \<and>
           ssz = size_or_none fs src \<and> osz = size_or_none fs' out"
  using assms
  by (auto simp: image_and_hash_def Let_def split: prod.splits sum.splits)

lemma image_and_hash_result:
  assumes "image_and_hash src out n fs = (Inr (m, s, ssz, osz), progress, fs')"
  shows "\<exists>f d bytes. open_rb fs src = Inr f \<and> open_wb fs out = Inr (d, put fs out d) \<and>
           bytes = (if n = 0 \<or> src = out \<or> src \<in> set (links d) then [] else content f) \<and>
           fs' = put fs out (d\<lparr>content := bytes\<rparr>) \<and>
           m = md5_hex bytes \<and> s = sha1_hex bytes \<and>
           ssz = size_or_none fs src \<and> osz = size_or_none fs' out"
proof -
  from image_and_hash_Inr [OF assms]
  obtain md5 sha1 where cs: "copy_stream src out n fs = (Inr (md5, sha1), progress, fs')"
    and ms: "m = md5_hexdigest md5" "s = sha1_hexdigest sha1"
    and sz: "ssz = size_or_none fs src" "osz = size_or_none fs' out"
    by blast
  from copy_stream_success [OF cs]
  obtain f d chunks where st: "open_rb fs src = Inr f" "open_wb fs out = Inr (d, put fs out d)"
    "fs' = put fs out (d\<lparr>content := concat chunks\<rparr>)"
    "concat chunks = (if n = 0 \<or> src = out \<or> src \<in> set (links d) then [] else content f)"
    "md5 = foldl md5_update md5_init chunks" "sha1 = foldl sha1_update sha1_init chunks"
    by blast
  have "m = md5_hex (concat chunks)" "s = sha1_hex (concat chunks)"
    using ms st(5,6)
    by (simp_all add: md5_hex_def sha1_hex_def foldl_md5_update_init foldl_sha1_update_init)
  with st(1,2,3,4) sz show ?thesis
    by blast
qed

lemma image_and_hash_healthy:
  assumes src: "fs src = Some f" "\<not> read_denied f" "bad_offset f = None"
    and dst: "open_wb fs out = Inr (d, fs1)" "capacity d = None" "bad_offset d = None"
    and req: "read_request Raw n = Inr req"
    and bytes: "bytes = (if n = 0 \<or> src = out \<or> src \<in> set (links d) then [] else content f)"
  shows "\<exists>progress.
           image_and_hash src out n fs =
             (Inr (md5_hex bytes, sha1_hex bytes, size_or_none fs src,
                   size_or_none (put fs out (d\<lparr>content := bytes\<rparr>)) out),
              progress, put fs out (d\<lparr>content := bytes\<rparr>))"
proof -
  have op: "open_rb fs src = Inr f"
    using src by (simp add: open_rb_def)
  note dd = open_wb_Inr [OF dst(1)]
  define rd where "rd = (case fs1 src of None \<Rightarrow> f | Some g \<Rightarrow> g)"
  have "bad_offset rd = None"
    using dd src(1,3) dst(3) by (simp add: rd_def put_def)
  from copy_loop_healthy [OF this dst(2) req]
  obtain r pr d' where run: "copy_loop rd n 0 d md5_init sha1_init 0 [] = (Inr r, pr, d')"
    by blast
  obtain md5 sha1 where r: "r = (md5, sha1)" by (cases r)
  have "copy_stream src out n fs = (Inr (md5, sha1), pr, put fs1 out d')"
    using op dst(1) run r by (simp add: copy_stream_def rd_def)
  then have img: "image_and_hash src out n fs =
               (Inr (md5_hexdigest md5, sha1_hexdigest sha1, size_or_none fs src,
                     size_or_none (put fs1 out d') out),
                pr, put fs1 out d')"
    by (simp add: image_and_hash_def Let_def)
  from image_and_hash_result [OF img] op dst(1) bytes
  have "put fs1 out d' = put fs out (d\<lparr>content := bytes\<rparr>)"
    "md5_hexdigest md5 = md5_hex bytes" "sha1_hexdigest sha1 = sha1_hex bytes"
    by auto
  with img show ?thesis by simp
qed

lemma image_and_hash_progress:
  assumes "open_rb fs src = Inr f" and "open_wb fs out = Inr (d, fs1)"
  shows "fst (snd (image_and_hash src out n fs)) =
         fst (snd (copy_loop (case fs1 src of None \<Rightarrow> f | Some g \<Rightarrow> g) n 0 d
                     md5_init sha1_init 0 []))"
  using assms
  by (simp add: image_and_hash_def copy_stream_def Let_def split: prod.splits sum.splits)

lemma image_and_hash_missing:
  assumes "fs src = None"
  shows "image_and_hash src out n fs = (Inl FileNotFoundError, [], fs)"
  using assms by (simp add: image_and_hash_def copy_stream_def open_rb_def Let_def)

section \<open>The steps of main\<close>

lemma conclusion_cases:
  "conclusion a b sm =
     (if a \<and> b then
        (if sm = ''YES''
         then ''Image creation SUCCESSFUL. Integrity verified by size and hash match.''
         else ''Image hashes match, but size comparison was not fully available.'')
      else ''WARNING: Hash mismatch detected. Image may be corrupted or modified.'')"
  by (simp add: conclusion_def)


lemma write_report_usable:
  assumes "usable_target fs p"
  shows "\<exists>fs'. write_report render p data fs = (None, fs')"
proof -
  from usable_target_write [OF assms]
  obtain d where d: "open_wb fs p = Inr (d, fs(p \<mapsto> d))" "usable d"
    by blast
  then have "capacity d = None"
    by (simp add: usable_def)
  with d(1) show ?thesis
    by (simp add: write_report_def write_chunk_unbounded)
qed

lemma main_completed:
  assumes "in_source_path inp \<noteq> []"
    and "image_and_hash (in_source_path inp) (or_default (in_output_path inp) default_output)
           default_chunk_size fs = (Inr (mc, sc, ssz, osz), progress, fs')"
    and "fst (hash_file (or_default (in_output_path inp) default_output) default_chunk_size fs')
           = Inr (mv, sv)"
    and "usable_target fs' report_path"
  shows "\<exists>r fs''. main render inp fs = (Completed r, fs'') \<and>
           rd_md5_copy r = mc \<and> rd_sha1_copy r = sc \<and>
           rd_md5_verify r = mv \<and> rd_sha1_verify r = sv \<and>
           rd_source_size r = ssz \<and> rd_output_size r = osz \<and>
           rd_size_match r = size_match ssz osz \<and>
           rd_md5_match r = yes_no (mc = mv) \<and> rd_sha1_match r = yes_no (sc = sv) \<and>
           rd_conclusion r = conclusion (mc = mv) (sc = sv) (size_match ssz osz)"
proof -
  obtain pv where hv: "hash_file (or_default (in_output_path inp) default_output)
                         default_chunk_size fs' = (Inr (mv, sv), pv)"
    using assms(3)
    by (cases "hash_file (or_default (in_output_path inp) default_output) default_chunk_size fs'")
       simp
  define r where "r =
    \<lparr>rd_datetime = in_datetime inp,
     rd_case_id = or_default (in_case_id inp) ''N/A'',
     rd_examiner = or_default (in_examiner inp) ''N/A'',
     rd_evidence_desc = or_default (in_evidence_desc inp) ''N/A'',
     rd_source_path = in_source_path inp,
     rd_output_path = or_default (in_output_path inp) default_output,
     rd_source_size = ssz, rd_output_size = osz,
     rd_size_match = size_match ssz osz,
     rd_md5_copy = mc, rd_sha1_copy = sc, rd_md5_verify = mv, rd_sha1_verify = sv,
     rd_md5_match = yes_no (mc = mv), rd_sha1_match = yes_no (sc = sv),
     rd_user_confirm = yes_no (in_user_input inp \<in> set [''yes'', ''y'']),
     rd_conclusion = conclusion (mc = mv) (sc = sv) (size_match ssz osz)\<rparr>"
  obtain fs'' where w: "write_report render report_path r fs' = (None, fs'')"
    using write_report_usable [OF assms(4)] by blast
  have "main render inp fs = (Completed r, fs'')"
    using assms(1,2) hv w unfolding main_def Let_def r_def by simp
  then show ?thesis
    by (intro exI [of _ r] exI [of _ fs'']) (simp add: r_def)
qed

lemma main_failed_copy:
  assumes "in_source_path inp \<noteq> []"
    and "image_and_hash (in_source_path inp) (or_default (in_output_path inp) default_output)
           default_chunk_size fs = (Inl e, progress, fs')"
  shows "main render inp fs = (Failed e, fs')"
  using assms by (simp add: main_def Let_def)

lemma main_usable:
  assumes inp: "in_source_path inp = src" "src \<noteq> []"
      "or_default (in_output_path inp) default_output = out"
    and src: "fs src = Some f" "usable f"
    and dst: "usable_target fs out" "usable_target fs report_path"
    and bytes: "bytes = (if src = out then [] else content f)"
  shows "\<exists>progress d r fs''.
           open_wb fs out = Inr (d, fs(out \<mapsto> d)) \<and> usable d \<and>
           stat_fails d = (case fs out of None \<Rightarrow> False | Some g \<Rightarrow> stat_fails g) \<and>
           reported_size d = (case fs out of None \<Rightarrow> None | Some g \<Rightarrow> reported_size g) \<and>
           image_and_hash src out default_chunk_size fs =
             (Inr (md5_hex bytes, sha1_hex bytes, size_or_none fs src,
                   size_or_none (fs(out \<mapsto> d\<lparr>content := bytes\<rparr>)) out),
              progress, fs(out \<mapsto> d\<lparr>content := bytes\<rparr>)) \<and>
           main render inp fs = (Completed r, fs'') \<and>
           rd_md5_copy r = md5_hex bytes \<and> rd_sha1_copy r = sha1_hex bytes \<and>
           rd_md5_verify r = md5_hex bytes \<and> rd_sha1_verify r = sha1_hex bytes \<and>
           rd_source_size r = size_or_none fs src \<and>
           rd_output_size r = size_or_none (fs(out \<mapsto> d\<lparr>content := bytes\<rparr>)) out \<and>
           rd_size_match r =
             size_match (size_or_none fs src)
               (size_or_none (fs(out \<mapsto> d\<lparr>content := bytes\<rparr>)) out) \<and>
           rd_md5_match r = ''YES'' \<and> rd_sha1_match r = ''YES'' \<and>
           rd_conclusion r =
             conclusion True True
               (size_match (size_or_none fs src)
                  (size_or_none (fs(out \<mapsto> d\<lparr>content := bytes\<rparr>)) out))"
proof -
  have f: "\<not> read_denied f" "bad_offset f = None"
    using src(2) by (simp_all add: usable_def)
  from usable_target_write [OF dst(1)]
  obtain d where d: "open_wb fs out = Inr (d, fs(out \<mapsto> d))" "usable d"
    "stat_fails d = (case fs out of None \<Rightarrow> False | Some g \<Rightarrow> stat_fails g)"
    "reported_size d = (case fs out of None \<Rightarrow> None | Some g \<Rightarrow> reported_size g)"
    by blast
  then have d': "capacity d = None" "\<not> read_denied d" "bad_offset d = None" "links d = []"
    by (simp_all add: usable_def)
  define fs' where "fs' = fs(out \<mapsto> d\<lparr>content := bytes\<rparr>)"
  have put: "put fs out (d\<lparr>content := bytes\<rparr>) = fs'"
    using d'(4) by (simp add: put_no_links fs'_def)
  have b: "bytes = (if default_chunk_size = 0 \<or> src = out \<or> src \<in> set (links d)
                    then [] else content f)"
    using bytes d'(4) by (simp add: default_chunk_size_def)
  from image_and_hash_healthy [OF src(1) f d(1) d'(1,3) read_request_default b]
  obtain progress where img:
    "image_and_hash src out default_chunk_size fs =
       (Inr (md5_hex bytes, sha1_hex bytes, size_or_none fs src, size_or_none fs' out),
        progress, fs')"
    unfolding put by blast
  have "fs' out = Some (d\<lparr>content := bytes\<rparr>)"
    by (simp add: fs'_def)
  moreover have "\<not> read_denied (d\<lparr>content := bytes\<rparr>)" "bad_offset (d\<lparr>content := bytes\<rparr>) = None"
    using d' by simp_all
  ultimately have ver:
    "fst (hash_file out default_chunk_size fs') = Inr (md5_hex bytes, sha1_hex bytes)"
    using hash_file_default [of fs' out "d\<lparr>content := bytes\<rparr>"] by simp
  have rep: "usable_target fs' report_path"
    using dst(2) d(2) by (simp add: fs'_def usable_target_def usable_def)
  obtain r fs'' where m: "main render inp fs = (Completed r, fs'')"
    "rd_md5_copy r = md5_hex bytes" "rd_sha1_copy r = sha1_hex bytes"
    "rd_md5_verify r = md5_hex bytes" "rd_sha1_verify r = sha1_hex bytes"
    "rd_source_size r = size_or_none fs src" "rd_output_size r = size_or_none fs' out"
    "rd_size_match r = size_match (size_or_none fs src) (size_or_none fs' out)"
    "rd_md5_match r = yes_no True" "rd_sha1_match r = yes_no True"
    "rd_conclusion r =
       conclusion True True (size_match (size_or_none fs src) (size_or_none fs' out))"
    using main_completed [of inp fs "md5_hex bytes" "sha1_hex bytes" "size_or_none fs src"
        "size_or_none fs' out" progress fs' "md5_hex bytes" "sha1_hex bytes" render]
      inp img ver rep
    by auto
  from d img m show ?thesis
    unfolding fs'_def by (simp add: yes_no_def)
qed

lemma main_ordinary:
  assumes inp: "in_source_path inp = src" "src \<noteq> []"
      "or_default (in_output_path inp) default_output = out"
    and src: "fs src = Some f" "ordinary f"
    and dst: "ordinary_target fs out" "ordinary_target fs report_path"
  shows "\<exists>progress d r fs''.
           image_and_hash src out default_chunk_size fs =
             (Inr (md5_hex (if src = out then [] else content f),
                   sha1_hex (if src = out then [] else content f),
                   Some (length (content f)),
                   Some (length (if src = out then [] else content f))),
              progress, fs(out \<mapsto> d\<lparr>content := (if src = out then [] else content f)\<rparr>)) \<and>
           ordinary d \<and>
           main render inp fs = (Completed r, fs'') \<and>
           rd_md5_copy r = md5_hex (if src = out then [] else content f) \<and>
           rd_sha1_copy r = sha1_hex (if src = out then [] else content f) \<and>
           rd_md5_verify r = rd_md5_copy r \<and> rd_sha1_verify r = rd_sha1_copy r \<and>
           rd_source_size r = Some (length (content f)) \<and>
           rd_output_size r = Some (length (if src = out then [] else content f)) \<and>
           rd_size_match r =
             size_match (Some (length (content f)))
               (Some (length (if src = out then [] else content f))) \<and>
           rd_md5_match r = ''YES'' \<and> rd_sha1_match r = ''YES'' \<and>
           rd_conclusion r =
             conclusion True True
               (size_match (Some (length (content f)))
                  (Some (length (if src = out then [] else content f))))"
proof -
  define bytes where "bytes = (if src = out then [] else content f)"
  have f: "\<not> stat_fails f" "reported_size f = None"
    using src(2) by (simp_all add: ordinary_def)
  from main_usable [OF inp src(1) ordinary_usable [OF src(2)]
      ordinary_target_usable [OF dst(1)] ordinary_target_usable [OF dst(2)] bytes_def,
      of render]
  obtain progress d r fs'' where m:
    "open_wb fs out = Inr (d, fs(out \<mapsto> d))" "usable d"
    "stat_fails d = (case fs out of None \<Rightarrow> False | Some g \<Rightarrow> stat_fails g)"
    "reported_size d = (case fs out of None \<Rightarrow> None | Some g \<Rightarrow> reported_size g)"
    "image_and_hash src out default_chunk_size fs =
       (Inr (md5_hex bytes, sha1_hex bytes, size_or_none fs src,
             size_or_none (fs(out \<mapsto> d\<lparr>content := bytes\<rparr>)) out),
        progress, fs(out \<mapsto> d\<lparr>content := bytes\<rparr>))"
    "main render inp fs = (Completed r, fs'')"
    "rd_md5_copy r = md5_hex bytes" "rd_sha1_copy r = sha1_hex bytes"
    "rd_md5_verify r = md5_hex bytes" "rd_sha1_verify r = sha1_hex bytes"
    "rd_source_size r = size_or_none fs src"
    "rd_output_size r = size_or_none (fs(out \<mapsto> d\<lparr>content := bytes\<rparr>)) out"
    "rd_size_match r =
       size_match (size_or_none fs src) (size_or_none (fs(out \<mapsto> d\<lparr>content := bytes\<rparr>)) out)"
    "rd_md5_match r = ''YES''" "rd_sha1_match r = ''YES''"
    "rd_conclusion r =
       conclusion True True
         (size_match (size_or_none fs src)
            (size_or_none (fs(out \<mapsto> d\<lparr>content := bytes\<rparr>)) out))"
    by blast
  have dd: "\<not> stat_fails d" "reported_size d = None"
    using m(3,4) dst(1) by (auto simp: ordinary_target_def ordinary_def split: option.splits)
  with m(2) have od: "ordinary d"
    by (simp add: ordinary_def usable_def)
  have ssz: "size_or_none fs src = Some (length (content f))"
    using src(1) f by (rule size_or_none_ordinary)
  have osz: "size_or_none (fs(out \<mapsto> d\<lparr>content := bytes\<rparr>)) out = Some (length bytes)"
    using size_or_none_ordinary [of "fs(out \<mapsto> d\<lparr>content := bytes\<rparr>)" out "d\<lparr>content := bytes\<rparr>"]
      dd by simp
  from m(5-) od show ?thesis
    unfolding ssz osz bytes_def [symmetric] by simp blast
qed

section \<open>Runs on concrete files\<close>

lemma example_copy_loop:
  "copy_loop (regular_file [1, 2, 3, 4, 5]) 2 0 (regular_file []) md5_init sha1_init 0 [] =
     (Inr (md5_update md5_init [1, 2, 3, 4, 5], sha1_update sha1_init [1, 2, 3, 4, 5]),
      [2, 4, 5], regular_file [1, 2, 3, 4, 5])"
  by (simp add: copy_loop.simps read_chunk_def read_request_def write_chunk_def regular_file_def
        md5_update_append sha1_update_append)

lemma example_image_and_hash:
  "image_and_hash ''evidence.bin'' ''image.dd'' 2 example_fs =
     (Inr (md5_hex [1, 2, 3, 4, 5], sha1_hex [1, 2, 3, 4, 5], Some 5, Some 5), [2, 4, 5],
      example_fs(''image.dd'' \<mapsto> regular_file [1, 2, 3, 4, 5]))"
  by (simp add: image_and_hash_def copy_stream_def open_rb_def open_wb_def example_fs_def
        example_copy_loop size_or_none_def getsize_def md5_hex_def sha1_hex_def put_def)
     (auto simp: regular_file_def)

lemma example_image_and_hash_whole:
  "image_and_hash ''evidence.bin'' ''image.dd'' 5 example_fs =
     (Inr (md5_hex [1, 2, 3, 4, 5], sha1_hex [1, 2, 3, 4, 5], Some 5, Some 5), [5],
      example_fs(''image.dd'' \<mapsto> regular_file [1, 2, 3, 4, 5]))"
  by (auto simp: image_and_hash_def copy_stream_def open_rb_def open_wb_def example_fs_def
        copy_loop.simps read_chunk_def read_request_def write_chunk_def size_or_none_def
        getsize_def md5_hex_def sha1_hex_def regular_file_def put_def)

lemma example_hash_file:
  "hash_file ''image.dd'' 3 (example_fs(''image.dd'' \<mapsto> regular_file [1, 2, 3, 4, 5])) =
     (Inr (md5_hex [1, 2, 3, 4, 5], sha1_hex [1, 2, 3, 4, 5]), [3, 5])"
  by (simp add: hash_file_def open_rb_def hash_loop.simps read_chunk_def read_request_def
        regular_file_def md5_hex_def sha1_hex_def md5_update_append sha1_update_append)

lemma byte_image_and_hash:
  "image_and_hash ''evidence.bin'' ''disk_image.dd'' default_chunk_size
       [''evidence.bin'' \<mapsto> regular_file [0xAB]] =
     (Inr (md5_hex [0xAB], sha1_hex [0xAB], Some 1, Some 1), [1],
      [''evidence.bin'' \<mapsto> regular_file [0xAB], ''disk_image.dd'' \<mapsto> regular_file [0xAB]])"
  by (auto simp: image_and_hash_def copy_stream_def open_rb_def open_wb_def
        copy_loop.simps read_chunk_def read_request_def write_chunk_def size_or_none_def
        getsize_def md5_hex_def sha1_hex_def regular_file_def default_chunk_size_def put_def)

text \<open>The destination is the source under another spelling of its path.\<close>

lemma linked_image_and_hash:
  "image_and_hash ''evidence.bin'' ''./evidence.bin'' 2 linked_fs =
     (Inr (md5_hex [], sha1_hex [], Some 5, Some 0), [],
      [''evidence.bin'' \<mapsto> (regular_file [])\<lparr>links := [''./evidence.bin'']\<rparr>,
       ''./evidence.bin'' \<mapsto> (regular_file [])\<lparr>links := [''evidence.bin'']\<rparr>])"
  by (auto simp: image_and_hash_def copy_stream_def open_rb_def open_wb_def linked_fs_def
        copy_loop.simps read_chunk_def read_request_def size_or_none_def getsize_def
        md5_hex_def sha1_hex_def md5_update_init_Nil sha1_update_init_Nil regular_file_def
        put_def)

text \<open>A source whose size query answers 0 although it delivers a byte, as a pipe does.\<close>

lemma pipe_image_and_hash:
  "image_and_hash ''/tmp/pipe'' ''disk_image.dd'' default_chunk_size
       [''/tmp/pipe'' \<mapsto> (regular_file [0xAB])\<lparr>reported_size := Some 0\<rparr>] =
     (Inr (md5_hex [0xAB], sha1_hex [0xAB], Some 0, Some 1), [1],
      [''/tmp/pipe'' \<mapsto> (regular_file [0xAB])\<lparr>reported_size := Some 0\<rparr>,
       ''disk_image.dd'' \<mapsto> regular_file [0xAB]])"
  by (auto simp: image_and_hash_def copy_stream_def open_rb_def open_wb_def
        copy_loop.simps read_chunk_def read_request_def write_chunk_def size_or_none_def
        getsize_def md5_hex_def sha1_hex_def regular_file_def default_chunk_size_def put_def)

text \<open>A read fails in the second chunk: the first chunk stays in the destination.\<close>

lemma damaged_copy_loop:
  "copy_loop ((regular_file (replicate 2097152 0xAB))\<lparr>bad_offset := Some 1500000\<rparr>)
     default_chunk_size 0 (regular_file []) md5_init sha1_init 0 [] =
     (Inl OSError, [1048576], regular_file (replicate 1048576 0xAB))"
  by (simp add: copy_loop.simps read_chunk_def read_request_def write_chunk_def regular_file_def
        default_chunk_size_def)

text \<open>
  The two readers on sizes that are not positive numbers of bytes: the buffered reader of
  \<^verbatim>\<open>hash_file\<close> refuses \<open>-2\<close>, the unbuffered reader of \<^verbatim>\<open>image_and_hash\<close> reads to the
  end of the file, and both refuse a size that no bytes object can have.
\<close>

lemma buffered_negative_size:
  "hash_file ''evidence.bin'' (- 2) example_fs = (Inl ValueError, [])"
  by (simp add: hash_file_def open_rb_def example_fs_def hash_loop.simps read_chunk_def
        read_request_def regular_file_def)

lemma raw_negative_size:
  "image_and_hash ''evidence.bin'' ''image.dd'' (- 2) example_fs =
     (Inr (md5_hex [1, 2, 3, 4, 5], sha1_hex [1, 2, 3, 4, 5], Some 5, Some 5), [5],
      example_fs(''image.dd'' \<mapsto> regular_file [1, 2, 3, 4, 5]))"
  by (auto simp: image_and_hash_def copy_stream_def open_rb_def open_wb_def example_fs_def
        copy_loop.simps read_chunk_def read_request_def write_chunk_def size_or_none_def
        getsize_def md5_hex_def sha1_hex_def regular_file_def put_def)

lemma oversized_request:
  "hash_file ''evidence.bin'' (2 ^ 63 - 1) example_fs = (Inl OverflowError, [])"
  by (simp add: hash_file_def open_rb_def example_fs_def hash_loop.simps read_chunk_def
        read_request_def regular_file_def)

section \<open>Properties\<close>

text \<open>
  C1, as the code has it. When \<^verbatim>\<open>image_and_hash\<close> returns and \<^verbatim>\<open>chunk_size\<close> is not zero,
  the destination holds exactly the bytes that the source holds after the call, and these are
  the bytes the source held before the call whenever the two paths name different files. The
  returned digests are those of the sequence of chunks written: the chunks are non-empty,
  their concatenation is the destination content, the progress values are their running
  totals, and each digest is the hash object fed these chunks in order, which is the digest
  of the destination content in one piece.
\<close>

theorem image_and_hash_copy_exact:
  assumes "image_and_hash src out n fs = (Inr (m, s, ssz, osz), progress, fs')"
    and "n \<noteq> 0"
  shows "\<exists>f d chunks.
           fs' src = Some f \<and> fs' out = Some d \<and> content d = content f \<and>
           (\<not> same_file fs src out \<longrightarrow> fs src = Some f) \<and>
           concat chunks = content d \<and> (\<forall>c \<in> set chunks. c \<noteq> []) \<and>
           progress = running_totals 0 chunks \<and>
           m = md5_hexdigest (foldl md5_update md5_init chunks) \<and>
           s = sha1_hexdigest (foldl sha1_update sha1_init chunks) \<and>
           m = md5_hex (content d) \<and> s = sha1_hex (content d)"
proof -
  from image_and_hash_Inr [OF assms(1)]
  obtain md5 sha1 where cs: "copy_stream src out n fs = (Inr (md5, sha1), progress, fs')"
    and ms: "m = md5_hexdigest md5" "s = sha1_hexdigest sha1"
    by blast
  from copy_stream_success [OF cs]
  obtain f d chunks where st: "open_rb fs src = Inr f"
    "open_wb fs out = Inr (d, put fs out d)"
    "fs' = put fs out (d\<lparr>content := concat chunks\<rparr>)"
    "concat chunks = (if n = 0 \<or> src = out \<or> src \<in> set (links d) then [] else content f)"
    "\<forall>c \<in> set chunks. c \<noteq> []"
    "md5 = foldl md5_update md5_init chunks" "sha1 = foldl sha1_update sha1_init chunks"
    "progress = running_totals 0 chunks"
    by blast
  define d' where "d' = d\<lparr>content := concat chunks\<rparr>"
  define f' where "f' = (if src = out then d'
                         else if src \<in> set (links d)
                         then d'\<lparr>links := out # removeAll src (links d)\<rparr> else f)"
  have out: "fs' out = Some d'" and cd: "content d' = concat chunks"
    using st(3) by (simp_all add: d'_def put_def)
  have src: "fs' src = Some f'"
    using st(3) open_rb_Inr [OF st(1)] by (simp add: f'_def d'_def put_def)
  have eq: "content d' = content f'"
    using st(4) assms(2) cd by (simp add: f'_def d'_def)
  have orig: "\<not> same_file fs src out \<longrightarrow> fs src = Some f'"
    using open_rb_Inr [OF st(1)] not_same_file [of fs src out d "put fs out d"] st(2)
    by (auto simp: f'_def)
  have "m = md5_hex (content d')" "s = sha1_hex (content d')"
    using ms st(6,7) cd by (simp_all add: md5_hex_def sha1_hex_def
        foldl_md5_update_init foldl_sha1_update_init)
  with out src eq orig cd st(5,6,7,8) ms
  have "fs' src = Some f' \<and> fs' out = Some d' \<and> content d' = content f' \<and>
        (\<not> same_file fs src out \<longrightarrow> fs src = Some f') \<and>
        concat chunks = content d' \<and> (\<forall>c \<in> set chunks. c \<noteq> []) \<and>
        progress = running_totals 0 chunks \<and>
        m = md5_hexdigest (foldl md5_update md5_init chunks) \<and>
        s = sha1_hexdigest (foldl sha1_update sha1_init chunks) \<and>
        m = md5_hex (content d') \<and> s = sha1_hex (content d')"
    by simp
  then show ?thesis by blast
qed

theorem image_and_hash_copy_exact_witness:
  "image_and_hash ''evidence.bin'' ''image.dd'' 2 example_fs =
     (Inr (md5_hex [1, 2, 3, 4, 5], sha1_hex [1, 2, 3, 4, 5], Some 5, Some 5), [2, 4, 5],
      example_fs(''image.dd'' \<mapsto> regular_file [1, 2, 3, 4, 5])) \<and>
   \<not> same_file example_fs ''evidence.bin'' ''image.dd'' \<and>
   (\<exists>f d chunks.
      example_fs ''evidence.bin'' = Some f \<and>
      (example_fs(''image.dd'' \<mapsto> regular_file [1, 2, 3, 4, 5])) ''evidence.bin'' = Some f \<and>
      (example_fs(''image.dd'' \<mapsto> regular_file [1, 2, 3, 4, 5])) ''image.dd'' = Some d \<and>
      content d = content f \<and> concat chunks = content d \<and>
      [2, 4, 5] = running_totals 0 chunks \<and>
      md5_hex [1, 2, 3, 4, 5] = md5_hexdigest (foldl md5_update md5_init chunks) \<and>
      sha1_hex [1, 2, 3, 4, 5] = sha1_hexdigest (foldl sha1_update sha1_init chunks))"
proof -
  have nz: "(2::int) \<noteq> 0" by simp
  have other: "\<not> same_file example_fs ''evidence.bin'' ''image.dd''"
    by (simp add: same_file_def example_fs_def regular_file_def)
  from image_and_hash_copy_exact [OF example_image_and_hash nz] other
  obtain f d chunks where
    "example_fs ''evidence.bin'' = Some f"
    "(example_fs(''image.dd'' \<mapsto> regular_file [1, 2, 3, 4, 5])) ''evidence.bin'' = Some f"
    "(example_fs(''image.dd'' \<mapsto> regular_file [1, 2, 3, 4, 5])) ''image.dd'' = Some d"
    "content d = content f" "concat chunks = content d"
    "[2, 4, 5] = running_totals 0 chunks"
    "md5_hex [1, 2, 3, 4, 5] = md5_hexdigest (foldl md5_update md5_init chunks)"
    "sha1_hex [1, 2, 3, 4, 5] = sha1_hexdigest (foldl sha1_update sha1_init chunks)"
    by blast
  with example_image_and_hash other show ?thesis
    by blast
qed

text \<open>
  C1 as stated fails for a chunk size of zero: the first read returns the empty bytes object,
  the loop stops, and the call returns with an empty destination beside a source of five
  bytes. It also loses the original bytes when both paths name the same file, be it under
  one path or under two spellings of it.
\<close>

theorem image_and_hash_copy_counterexample:
  "image_and_hash ''evidence.bin'' ''image.dd'' 0 example_fs =
     (Inr (md5_hex [], sha1_hex [], Some 5, Some 0), [],
      example_fs(''image.dd'' \<mapsto> regular_file [])) \<and>
   example_fs ''evidence.bin'' = Some (regular_file [1, 2, 3, 4, 5]) \<and>
   content (regular_file []) \<noteq> content (regular_file [1, 2, 3, 4, 5]) \<and>
   image_and_hash ''evidence.bin'' ''evidence.bin'' 2 example_fs =
     (Inr (md5_hex [], sha1_hex [], Some 5, Some 0), [],
      example_fs(''evidence.bin'' \<mapsto> regular_file [])) \<and>
   image_and_hash ''evidence.bin'' ''./evidence.bin'' 2 linked_fs =
     (Inr (md5_hex [], sha1_hex [], Some 5, Some 0), [],
      [''evidence.bin'' \<mapsto> (regular_file [])\<lparr>links := [''./evidence.bin'']\<rparr>,
       ''./evidence.bin'' \<mapsto> (regular_file [])\<lparr>links := [''evidence.bin'']\<rparr>])"
proof -
  have "image_and_hash ''evidence.bin'' ''image.dd'' 0 example_fs =
     (Inr (md5_hex [], sha1_hex [], Some 5, Some 0), [],
      example_fs(''image.dd'' \<mapsto> regular_file []))"
    by (auto simp: image_and_hash_def copy_stream_def open_rb_def open_wb_def example_fs_def
        copy_loop.simps read_chunk_def read_request_def size_or_none_def getsize_def
        md5_hex_def sha1_hex_def md5_update_init_Nil sha1_update_init_Nil regular_file_def
        put_def)
  moreover have "image_and_hash ''evidence.bin'' ''evidence.bin'' 2 example_fs =
     (Inr (md5_hex [], sha1_hex [], Some 5, Some 0), [],
      example_fs(''evidence.bin'' \<mapsto> regular_file []))"
    by (auto simp: image_and_hash_def copy_stream_def open_rb_def open_wb_def example_fs_def
        copy_loop.simps read_chunk_def read_request_def size_or_none_def getsize_def
        md5_hex_def sha1_hex_def md5_update_init_Nil sha1_update_init_Nil regular_file_def
        put_def)
  moreover have "example_fs ''evidence.bin'' = Some (regular_file [1, 2, 3, 4, 5])"
    "content (regular_file []) \<noteq> content (regular_file [1, 2, 3, 4, 5])"
    by (simp_all add: example_fs_def regular_file_def)
  ultimately show ?thesis
    using linked_image_and_hash by simp
qed

text \<open>
  C2. When \<^verbatim>\<open>image_and_hash\<close> has copied, with a chunk size other than zero, a source that
  is not the same file as its destination, the digest pair it returns is the pair that the
  verify pass \<^verbatim>\<open>hash_file\<close>, with its chunk size of 1 MiB, returns on any readable,
  undamaged file holding the source's bytes (the source itself or the image), and a second
  run of \<^verbatim>\<open>hash_file\<close> on a file with these bytes returns the same pair again. With any
  other chunk size than zero, a run of \<^verbatim>\<open>hash_file\<close> that returns also returns this pair.
\<close>

theorem copy_digest_equals_verify_digest:
  assumes copy: "image_and_hash src out n fs = (Inr (m, s, ssz, osz), progress, fs')"
      "n \<noteq> 0"
    and src: "fs src = Some f" "\<not> same_file fs src out"
    and first: "fsa p = Some g" "\<not> read_denied g" "bad_offset g = None" "content g = content f"
    and second: "fsb p = Some g'" "\<not> read_denied g'" "bad_offset g' = None"
      "content g' = content f"
  shows "fst (hash_file p default_chunk_size fsa) = Inr (m, s) \<and>
         fst (hash_file p default_chunk_size fsb) = fst (hash_file p default_chunk_size fsa) \<and>
         (\<forall>n' r. n' \<noteq> 0 \<and> fst (hash_file p n' fsa) = Inr r \<longrightarrow> r = (m, s))"
proof -
  from image_and_hash_result [OF copy(1)]
  obtain f0 d bytes where r: "open_rb fs src = Inr f0" "open_wb fs out = Inr (d, put fs out d)"
    "bytes = (if n = 0 \<or> src = out \<or> src \<in> set (links d) then [] else content f0)"
    "m = md5_hex bytes" "s = sha1_hex bytes"
    by blast
  have "f0 = f"
    using open_rb_Inr [OF r(1)] src(1) by simp
  with r(3) copy(2) not_same_file [OF src(2) r(2)] have "bytes = content f"
    by simp
  with r(4,5) have ms: "m = md5_hex (content f)" "s = sha1_hex (content f)"
    by simp_all
  have one: "fst (hash_file p default_chunk_size fsa) = Inr (m, s)"
    using hash_file_default [of fsa p g] first ms by simp
  have two: "fst (hash_file p default_chunk_size fsb) = Inr (m, s)"
    using hash_file_default [of fsb p g'] second ms by simp
  have any: "m' = m \<and> s' = s"
    if "n' \<noteq> 0" "fst (hash_file p n' fsa) = Inr (m', s')" for n' m' s'
    using hash_file_Inr [OF that(2) first(1)] that(1) first(4) ms by simp
  from one two any show ?thesis by auto
qed

theorem copy_digest_equals_verify_digest_witness:
  "image_and_hash ''evidence.bin'' ''image.dd'' 2 example_fs =
     (Inr (md5_hex [1, 2, 3, 4, 5], sha1_hex [1, 2, 3, 4, 5], Some 5, Some 5), [2, 4, 5],
      example_fs(''image.dd'' \<mapsto> regular_file [1, 2, 3, 4, 5])) \<and>
   fst (hash_file ''image.dd'' default_chunk_size
          (example_fs(''image.dd'' \<mapsto> regular_file [1, 2, 3, 4, 5])))
     = Inr (md5_hex [1, 2, 3, 4, 5], sha1_hex [1, 2, 3, 4, 5]) \<and>
   fst (hash_file ''evidence.bin'' default_chunk_size example_fs)
     = fst (hash_file ''image.dd'' default_chunk_size
              (example_fs(''image.dd'' \<mapsto> regular_file [1, 2, 3, 4, 5]))) \<and>
   hash_file ''image.dd'' 3 (example_fs(''image.dd'' \<mapsto> regular_file [1, 2, 3, 4, 5]))
     = (Inr (md5_hex [1, 2, 3, 4, 5], sha1_hex [1, 2, 3, 4, 5]), [3, 5])"
proof -
  let ?img = "example_fs(''image.dd'' \<mapsto> regular_file [1, 2, 3, 4, 5])"
  have nz: "(2::int) \<noteq> 0" by simp
  have src: "example_fs ''evidence.bin'' = Some (regular_file [1, 2, 3, 4, 5])"
    "\<not> same_file example_fs ''evidence.bin'' ''image.dd''"
    by (simp_all add: example_fs_def same_file_def regular_file_def)
  have img: "?img ''image.dd'' = Some (regular_file [1, 2, 3, 4, 5])"
    "\<not> read_denied (regular_file [1, 2, 3, 4, 5])"
    "bad_offset (regular_file [1, 2, 3, 4, 5]) = None"
    "content (regular_file [1, 2, 3, 4, 5]) = content (regular_file [1, 2, 3, 4, 5])"
    by (simp_all add: regular_file_def)
  have again: "example_fs ''evidence.bin'' = Some (regular_file [1, 2, 3, 4, 5])"
    "\<not> read_denied (regular_file [1, 2, 3, 4, 5])"
    "bad_offset (regular_file [1, 2, 3, 4, 5]) = None"
    "content (regular_file [1, 2, 3, 4, 5]) = content (regular_file [1, 2, 3, 4, 5])"
    by (simp_all add: example_fs_def regular_file_def)
  from copy_digest_equals_verify_digest
    [where fs = example_fs and src = "''evidence.bin''" and out = "''image.dd''" and n = 2
       and f = "regular_file [1, 2, 3, 4, 5]" and fsa = ?img and fsb = ?img
       and p = "''image.dd''" and g = "regular_file [1, 2, 3, 4, 5]"
       and g' = "regular_file [1, 2, 3, 4, 5]",
     OF example_image_and_hash nz src img img]
  have "fst (hash_file ''image.dd'' default_chunk_size ?img)
          = Inr (md5_hex [1, 2, 3, 4, 5], sha1_hex [1, 2, 3, 4, 5])"
    by simp
  moreover have "fst (hash_file ''evidence.bin'' default_chunk_size example_fs)
          = Inr (md5_hex [1, 2, 3, 4, 5], sha1_hex [1, 2, 3, 4, 5])"
    using hash_file_default [of example_fs "''evidence.bin''" "regular_file [1, 2, 3, 4, 5]"]
      again by (simp add: regular_file_def)
  ultimately show ?thesis
    using example_image_and_hash example_hash_file by simp
qed

text \<open>
  C3. The size comparison of \<^verbatim>\<open>main\<close> is a three-valued function of the two sizes: it is
  \<^verbatim>\<open>YES\<close> exactly when both sizes are known and equal, \<^verbatim>\<open>NO\<close> exactly when both are known
  and differ, and \<^verbatim>\<open>UNKNOWN\<close> exactly when one of them is \<^verbatim>\<open>None\<close>.
\<close>

theorem size_match_tri_state:
  "(size_match a b = ''YES'' \<longleftrightarrow> (\<exists>n. a = Some n \<and> b = Some n)) \<and>
   (size_match a b = ''NO'' \<longleftrightarrow> (\<exists>n m. a = Some n \<and> b = Some m \<and> n \<noteq> m)) \<and>
   (size_match a b = ''UNKNOWN'' \<longleftrightarrow> (a = None \<or> b = None))"
  by (cases a; cases b) (auto simp: size_match_def)


text \<open>
  C4, at a run where the code parts from it. The source and the destination are the same
  path: the size recorded before the copy is 5, the file is emptied by opening it for
  writing, both digest pairs are those of the empty file and match, and the sizes differ. The
  conclusion is then the one that says the size comparison was not available, although the
  comparison was made and failed (\<^verbatim>\<open>image_and_hash\<close> itself prints that the sizes do not
  match).
\<close>

theorem main_same_path_conclusion:
  "\<exists>r fs''.
     main render (scenario_inputs ''evidence.bin'' ''evidence.bin'') example_fs
       = (Completed r, fs'') \<and>
     rd_source_size r = Some 5 \<and> rd_output_size r = Some 0 \<and> rd_size_match r = ''NO'' \<and>
     rd_md5_match r = ''YES'' \<and> rd_sha1_match r = ''YES'' \<and>
     rd_conclusion r = ''Image hashes match, but size comparison was not fully available.'' \<and>
     conclusion True True ''NO'' = rd_conclusion r"
proof -
  let ?inp = "scenario_inputs ''evidence.bin'' ''evidence.bin''"
  have inp: "in_source_path ?inp = ''evidence.bin''" "''evidence.bin'' \<noteq> []"
    "or_default (in_output_path ?inp) default_output = ''evidence.bin''"
    by (simp_all add: scenario_inputs_def or_default_def)
  have src: "example_fs ''evidence.bin'' = Some (regular_file [1, 2, 3, 4, 5])"
    "ordinary (regular_file [1, 2, 3, 4, 5])"
    by (simp_all add: example_fs_def ordinary_def regular_file_def)
  have dst: "ordinary_target example_fs ''evidence.bin''"
    "ordinary_target example_fs report_path"
    by (simp_all add: example_fs_def ordinary_target_def report_path_def ordinary_def
        regular_file_def)
  from main_ordinary [where fs = example_fs and render = render, OF inp src dst]
  obtain r fs'' where m: "main render ?inp example_fs = (Completed r, fs'')"
    "rd_source_size r = Some (length (content (regular_file [1, 2, 3, 4, 5])))"
    "rd_output_size r = Some (length ([] :: byte list))"
    "rd_size_match r =
       size_match (Some (length (content (regular_file [1, 2, 3, 4, 5]))))
         (Some (length ([] :: byte list)))"
    "rd_md5_match r = ''YES''" "rd_sha1_match r = ''YES''"
    "rd_conclusion r =
       conclusion True True
         (size_match (Some (length (content (regular_file [1, 2, 3, 4, 5]))))
            (Some (length ([] :: byte list))))"
    by auto
  have len: "length (content (regular_file [1, 2, 3, 4, 5])) = 5"
    by (simp add: regular_file_def)
  have "main render ?inp example_fs = (Completed r, fs'') \<and>
     rd_source_size r = Some 5 \<and> rd_output_size r = Some 0 \<and> rd_size_match r = ''NO'' \<and>
     rd_md5_match r = ''YES'' \<and> rd_sha1_match r = ''YES'' \<and>
     rd_conclusion r = ''Image hashes match, but size comparison was not fully available.'' \<and>
     conclusion True True ''NO'' = rd_conclusion r"
    using m unfolding len by (simp add: size_match_def conclusion_def)
  then show ?thesis by blast
qed

text \<open>
  C5, as the code has it. An ordinary source that is not empty is copied to another path, and
  the image loses its last byte before the verify pass. The verify pass then returns the
  digests of the shortened content, while the copy pass returned those of the full content:
  when the two contents differ in their MD5 and in their SHA-1 digest, both digest
  comparisons say \<^verbatim>\<open>NO\<close> and the conclusion is the warning. The size comparison is made
  on the two sizes that \<^verbatim>\<open>image_and_hash\<close> recorded before the image was shortened, which
  are equal: it says \<^verbatim>\<open>YES\<close>.
\<close>

theorem truncated_image_digests_and_size:
  assumes src: "fs src = Some f" "ordinary f" "content f \<noteq> []"
    and dst: "src \<noteq> out" "ordinary_target fs out"
    and differ: "md5_hex (content f) \<noteq> md5_hex (butlast (content f))"
      "sha1_hex (content f) \<noteq> sha1_hex (butlast (content f))"
  shows "\<exists>mc sc ssz osz progress fs' mv sv.
           image_and_hash src out default_chunk_size fs =
             (Inr (mc, sc, ssz, osz), progress, fs') \<and>
           fst (hash_file out default_chunk_size (truncate_last fs' out)) = Inr (mv, sv) \<and>
           mc = md5_hex (content f) \<and> sc = sha1_hex (content f) \<and>
           mv = md5_hex (butlast (content f)) \<and> sv = sha1_hex (butlast (content f)) \<and>
           yes_no (mc = mv) = ''NO'' \<and> yes_no (sc = sv) = ''NO'' \<and>
           ssz = Some (length (content f)) \<and> osz = Some (length (content f)) \<and>
           size_match ssz osz = ''YES'' \<and>
           conclusion (mc = mv) (sc = sv) (size_match ssz osz) =
             ''WARNING: Hash mismatch detected. Image may be corrupted or modified.''"
proof -
  have f: "\<not> read_denied f" "bad_offset f = None" "\<not> stat_fails f" "reported_size f = None"
    using src(2) by (simp_all add: ordinary_def)
  from ordinary_target_write [OF dst(2)]
  obtain d where d: "open_wb fs out = Inr (d, fs(out \<mapsto> d))" "ordinary d"
    by blast
  then have d': "capacity d = None" "bad_offset d = None" "links d = []" "\<not> read_denied d"
    "\<not> stat_fails d" "reported_size d = None"
    by (simp_all add: ordinary_def)
  define img where "img = d\<lparr>content := content f\<rparr>"
  define fs' where "fs' = fs(out \<mapsto> img)"
  have b: "content f = (if default_chunk_size = 0 \<or> src = out \<or> src \<in> set (links d)
                        then [] else content f)"
    using dst(1) d'(3) by (simp add: default_chunk_size_def)
  have put: "put fs out (d\<lparr>content := content f\<rparr>) = fs'"
    using d'(3) by (simp add: put_no_links fs'_def img_def)
  from image_and_hash_healthy [OF src(1) f(1,2) d(1) d'(1,2) read_request_default b]
  obtain progress where run:
    "image_and_hash src out default_chunk_size fs =
       (Inr (md5_hex (content f), sha1_hex (content f), size_or_none fs src,
             size_or_none fs' out), progress, fs')"
    unfolding put by blast
  have ssz: "size_or_none fs src = Some (length (content f))"
    using src(1) f(3,4) by (rule size_or_none_ordinary)
  have osz: "size_or_none fs' out = Some (length (content f))"
    using size_or_none_ordinary [of fs' out img] d'(5,6) by (simp add: fs'_def img_def)
  let ?t = "img\<lparr>content := butlast (content img)\<rparr>"
  have "truncate_last fs' out out = Some ?t"
    using d'(3) by (simp add: truncate_last_def fs'_def put_def)
  moreover have "\<not> read_denied ?t" "bad_offset ?t = None" "content ?t = butlast (content f)"
    using d'(2,4) by (simp_all add: img_def)
  ultimately have ver: "fst (hash_file out default_chunk_size (truncate_last fs' out)) =
                     Inr (md5_hex (butlast (content f)), sha1_hex (butlast (content f)))"
    using hash_file_default [of "truncate_last fs' out" out ?t] by simp
  have "image_and_hash src out default_chunk_size fs =
          (Inr (md5_hex (content f), sha1_hex (content f), Some (length (content f)),
                Some (length (content f))), progress, fs')"
    using run ssz osz by simp
  with ver differ show ?thesis
    by (simp add: yes_no_def size_match_def conclusion_def)
qed

theorem truncated_image_digests_and_size_witness:
  "md5_hex [0xAB] \<noteq> md5_hex [] \<and> sha1_hex [0xAB] \<noteq> sha1_hex [] \<and>
   (\<exists>progress fs'.
      image_and_hash ''evidence.bin'' ''disk_image.dd'' default_chunk_size
          [''evidence.bin'' \<mapsto> regular_file [0xAB]] =
        (Inr (md5_hex [0xAB], sha1_hex [0xAB], Some 1, Some 1), progress, fs') \<and>
      fst (hash_file ''disk_image.dd'' default_chunk_size (truncate_last fs' ''disk_image.dd''))
        = Inr (md5_hex [], sha1_hex []) \<and>
      yes_no (md5_hex [0xAB] = md5_hex []) = ''NO'' \<and>
      yes_no (sha1_hex [0xAB] = sha1_hex []) = ''NO'' \<and>
      size_match (Some 1) (Some 1) = ''YES'')"
proof -
  let ?fs = "[''evidence.bin'' \<mapsto> regular_file [0xAB]]"
  have src: "?fs ''evidence.bin'' = Some (regular_file [0xAB])" "ordinary (regular_file [0xAB])"
    "content (regular_file [0xAB]) \<noteq> []"
    by (simp_all add: ordinary_def regular_file_def)
  have dst: "''evidence.bin'' \<noteq> ''disk_image.dd''" "ordinary_target ?fs ''disk_image.dd''"
    by (simp_all add: ordinary_target_def)
  have c: "content (regular_file [0xAB]) = [0xAB]"
    by (simp add: regular_file_def)
  have differ: "md5_hex [0xAB] \<noteq> md5_hex []" "sha1_hex [0xAB] \<noteq> sha1_hex []"
    by (simp_all add: md5_hex_AB md5_hex_Nil md5_hexdigest_init sha1_hex_AB sha1_hex_Nil
          sha1_hexdigest_init)
  then have differ': "md5_hex (content (regular_file [0xAB]))
                        \<noteq> md5_hex (butlast (content (regular_file [0xAB])))"
    "sha1_hex (content (regular_file [0xAB]))
       \<noteq> sha1_hex (butlast (content (regular_file [0xAB])))"
    unfolding c by simp_all
  from truncated_image_digests_and_size [where fs = ?fs, OF src dst differ']
  show ?thesis
    using differ unfolding c by auto
qed

text \<open>
  C5 as stated fails on its size part: for a source of one byte, copied and then shortened
  to no byte, the verify pass hashes the empty file, and the size comparison of \<^verbatim>\<open>main\<close>
  is made on the sizes 1 and 1 recorded by \<^verbatim>\<open>image_and_hash\<close>.
\<close>

theorem truncated_image_size_counterexample:
  "image_and_hash ''evidence.bin'' ''disk_image.dd'' default_chunk_size
       [''evidence.bin'' \<mapsto> regular_file [0xAB]] =
     (Inr (md5_hex [0xAB], sha1_hex [0xAB], Some 1, Some 1), [1],
      [''evidence.bin'' \<mapsto> regular_file [0xAB], ''disk_image.dd'' \<mapsto> regular_file [0xAB]]) \<and>
   truncate_last
       [''evidence.bin'' \<mapsto> regular_file [0xAB], ''disk_image.dd'' \<mapsto> regular_file [0xAB]]
       ''disk_image.dd''
     = [''evidence.bin'' \<mapsto> regular_file [0xAB], ''disk_image.dd'' \<mapsto> regular_file []] \<and>
   hash_file ''disk_image.dd'' default_chunk_size
       [''evidence.bin'' \<mapsto> regular_file [0xAB], ''disk_image.dd'' \<mapsto> regular_file []]
     = (Inr (md5_hex [], sha1_hex []), []) \<and>
   size_match (Some 1) (Some 1) = ''YES'' \<and>
   size_match (Some 1) (Some 1) \<noteq> ''NO''"
proof -
  have "truncate_last
          [''evidence.bin'' \<mapsto> regular_file [0xAB], ''disk_image.dd'' \<mapsto> regular_file [0xAB]]
          ''disk_image.dd''
        = [''evidence.bin'' \<mapsto> regular_file [0xAB], ''disk_image.dd'' \<mapsto> regular_file []]"
    by (auto simp: truncate_last_def regular_file_def put_def)
  moreover have "hash_file ''disk_image.dd'' default_chunk_size
       [''evidence.bin'' \<mapsto> regular_file [0xAB], ''disk_image.dd'' \<mapsto> regular_file []]
     = (Inr (md5_hex [], sha1_hex []), [])"
    by (simp add: regular_file_def hash_file_def open_rb_def hash_loop.simps read_chunk_def
          read_request_def default_chunk_size_def md5_hex_Nil sha1_hex_Nil)
  moreover have "size_match (Some 1) (Some 1) = ''YES''" "size_match (Some 1) (Some 1) \<noteq> ''NO''"
    by (simp_all add: size_match_def)
  ultimately show ?thesis
    using byte_image_and_hash by simp
qed

text \<open>
  C6. For two positive chunk sizes, dividing the length of the content or not, two runs of
  \<^verbatim>\<open>hash_file\<close> on a file that both return a result return the same MD5 and SHA-1
  digests, those of the content hashed in one piece, and two runs of \<^verbatim>\<open>image_and_hash\<close>
  that both return a result return the same digests and leave the same files.
\<close>

theorem digest_independent_of_chunk_size:
  assumes pos: "0 < na" "0 < nb"
    and verify: "fs p = Some f"
      "fst (hash_file p na fs) = Inr (ma', sa')" "fst (hash_file p nb fs) = Inr (mb', sb')"
    and run1: "image_and_hash src out na fs' = (Inr (ma, sa, xa, ya), pa, fsa)"
    and run2: "image_and_hash src out nb fs' = (Inr (mb, sb, xb, yb), pb, fsb)"
  shows "ma' = md5_hex (content f) \<and> sa' = sha1_hex (content f) \<and>
         mb' = ma' \<and> sb' = sa' \<and> ma = mb \<and> sa = sb \<and> fsa = fsb"
proof -
  have h: "ma' = md5_hex (content f)" "sa' = sha1_hex (content f)"
    "mb' = md5_hex (content f)" "sb' = sha1_hex (content f)"
    using hash_file_Inr [OF verify(2,1)] hash_file_Inr [OF verify(3,1)] pos
    by simp_all
  from image_and_hash_result [OF run1]
  obtain f1 d1 b1 where r1: "open_rb fs' src = Inr f1"
    "open_wb fs' out = Inr (d1, put fs' out d1)"
    "b1 = (if na = 0 \<or> src = out \<or> src \<in> set (links d1) then [] else content f1)"
    "fsa = put fs' out (d1\<lparr>content := b1\<rparr>)" "ma = md5_hex b1" "sa = sha1_hex b1"
    by blast
  from image_and_hash_result [OF run2]
  obtain f2 d2 b2 where r2: "open_rb fs' src = Inr f2"
    "open_wb fs' out = Inr (d2, put fs' out d2)"
    "b2 = (if nb = 0 \<or> src = out \<or> src \<in> set (links d2) then [] else content f2)"
    "fsb = put fs' out (d2\<lparr>content := b2\<rparr>)" "mb = md5_hex b2" "sb = sha1_hex b2"
    by blast
  have "f1 = f2" "d1 = d2"
    using r1(1,2) r2(1,2) by simp_all
  with r1(3) r2(3) pos have "b1 = b2"
    by simp
  with r1(4,5,6) r2(4,5,6) \<open>d1 = d2\<close> have "ma = mb" "sa = sb" "fsa = fsb"
    by simp_all
  with h show ?thesis by simp
qed

theorem digest_independent_of_chunk_size_witness:
  "(0::int) < 5 \<and> (0::int) < 2 \<and>
   fst (hash_file ''evidence.bin'' 5 example_fs)
     = Inr (md5_hex [1, 2, 3, 4, 5], sha1_hex [1, 2, 3, 4, 5]) \<and>
   fst (hash_file ''evidence.bin'' 2 example_fs) = fst (hash_file ''evidence.bin'' 5 example_fs) \<and>
   fst (image_and_hash ''evidence.bin'' ''image.dd'' 5 example_fs)
     = fst (image_and_hash ''evidence.bin'' ''image.dd'' 2 example_fs)"
proof -
  have pos: "(0::int) < 5" "(0::int) < 2" by simp_all
  have healthy: "example_fs ''evidence.bin'' = Some (regular_file [1, 2, 3, 4, 5])"
    "\<not> read_denied (regular_file [1, 2, 3, 4, 5])"
    "bad_offset (regular_file [1, 2, 3, 4, 5]) = None"
    by (simp_all add: example_fs_def regular_file_def)
  have five: "fst (hash_file ''evidence.bin'' 5 example_fs)
                = Inr (md5_hex [1, 2, 3, 4, 5], sha1_hex [1, 2, 3, 4, 5])"
    using hash_file_healthy
      [of example_fs "''evidence.bin''" "regular_file [1, 2, 3, 4, 5]" 5 "Some 5"] healthy
    by (simp add: read_request_def regular_file_def)
  have two: "fst (hash_file ''evidence.bin'' 2 example_fs)
               = Inr (md5_hex [1, 2, 3, 4, 5], sha1_hex [1, 2, 3, 4, 5])"
    using hash_file_healthy
      [of example_fs "''evidence.bin''" "regular_file [1, 2, 3, 4, 5]" 2 "Some 2"] healthy
    by (simp add: read_request_def regular_file_def)
  from digest_independent_of_chunk_size
    [where fs = example_fs and p = "''evidence.bin''" and f = "regular_file [1, 2, 3, 4, 5]"
       and na = 5 and nb = 2,
     OF pos healthy(1) five two example_image_and_hash_whole example_image_and_hash]
  show ?thesis
    using five two example_image_and_hash_whole example_image_and_hash
    by simp
qed

text \<open>
  C7. The source is an ordinary file of 3 MiB of the byte \<open>0xAB\<close>, the destination is another
  path that is free or an ordinary file, and \<^verbatim>\<open>main\<close> copies with its chunk size of 1 MiB.
  Then the copy loop transfers exactly three chunks (the progress values are 1 MiB, 2 MiB and
  3 MiB), the destination holds the 3,145,728 bytes, both sizes are reported as 3,145,728,
  the digests of the verify pass equal those of the copy pass, the size comparison and both
  digest comparisons say \<^verbatim>\<open>YES\<close>, and the conclusion is the successful one.
\<close>

theorem three_mebibyte_scenario:
  assumes inp: "in_source_path inp = src" "src \<noteq> []"
      "or_default (in_output_path inp) default_output = out"
    and src: "fs src = Some f" "ordinary f" "content f = replicate 3145728 0xAB"
    and dst: "src \<noteq> out" "ordinary_target fs out" "ordinary_target fs report_path"
  shows "\<exists>d r fs''.
           image_and_hash src out default_chunk_size fs =
             (Inr (md5_hex (replicate 3145728 0xAB), sha1_hex (replicate 3145728 0xAB),
                   Some 3145728, Some 3145728),
              [1048576, 2097152, 3145728],
              fs(out \<mapsto> d\<lparr>content := replicate 3145728 0xAB\<rparr>)) \<and>
           main render inp fs = (Completed r, fs'') \<and>
           rd_md5_copy r = md5_hex (replicate 3145728 0xAB) \<and>
           rd_sha1_copy r = sha1_hex (replicate 3145728 0xAB) \<and>
           rd_md5_verify r = rd_md5_copy r \<and> rd_sha1_verify r = rd_sha1_copy r \<and>
           rd_source_size r = Some 3145728 \<and> rd_output_size r = Some 3145728 \<and>
           rd_size_match r = ''YES'' \<and> rd_md5_match r = ''YES'' \<and> rd_sha1_match r = ''YES'' \<and>
           rd_conclusion r =
             ''Image creation SUCCESSFUL. Integrity verified by size and hash match.''"
proof -
  from main_ordinary [OF inp src(1,2) dst(2,3), of render]
  obtain progress d r fs'' where m:
    "image_and_hash src out default_chunk_size fs =
       (Inr (md5_hex (content f), sha1_hex (content f), Some (length (content f)),
             Some (length (content f))),
        progress, fs(out \<mapsto> d\<lparr>content := content f\<rparr>))"
    "ordinary d"
    "main render inp fs = (Completed r, fs'')"
    "rd_md5_copy r = md5_hex (content f)" "rd_sha1_copy r = sha1_hex (content f)"
    "rd_md5_verify r = rd_md5_copy r" "rd_sha1_verify r = rd_sha1_copy r"
    "rd_source_size r = Some (length (content f))"
    "rd_output_size r = Some (length (content f))"
    "rd_size_match r = size_match (Some (length (content f))) (Some (length (content f)))"
    "rd_md5_match r = ''YES''" "rd_sha1_match r = ''YES''"
    "rd_conclusion r =
       conclusion True True
         (size_match (Some (length (content f))) (Some (length (content f))))"
    using dst(1) by auto
  have f: "open_rb fs src = Inr f" "bad_offset f = None"
    using src(1,2) by (simp_all add: open_rb_def ordinary_def)
  from ordinary_target_write [OF dst(2)]
  obtain d0 where d0: "open_wb fs out = Inr (d0, fs(out \<mapsto> d0))" "ordinary d0"
    by blast
  have "progress = fst (snd (image_and_hash src out default_chunk_size fs))"
    using m(1) by simp
  also have "\<dots> = fst (snd (copy_loop f 1048576 0 d0 md5_init sha1_init 0 []))"
    using image_and_hash_progress [OF f(1) d0(1), of default_chunk_size] dst(1) src(1)
    by (simp add: default_chunk_size_def)
  also have "\<dots> = [1048576, 2097152, 3145728]"
    using copy_loop_three_chunks [OF src(3) f(2)] d0(2) by (simp add: ordinary_def)
  finally have p: "progress = [1048576, 2097152, 3145728]" .
  from m p show ?thesis
    unfolding src(3) by (simp add: size_match_def conclusion_def) blast
qed

theorem three_mebibyte_scenario_witness:
  "\<exists>d r fs''.
     image_and_hash ''evidence.bin'' ''disk_image.dd'' default_chunk_size scenario_fs =
       (Inr (md5_hex (replicate 3145728 0xAB), sha1_hex (replicate 3145728 0xAB),
             Some 3145728, Some 3145728),
        [1048576, 2097152, 3145728],
        scenario_fs(''disk_image.dd'' \<mapsto> d\<lparr>content := replicate 3145728 0xAB\<rparr>)) \<and>
     main no_layout (scenario_inputs ''evidence.bin'' []) scenario_fs = (Completed r, fs'') \<and>
     rd_md5_verify r = rd_md5_copy r \<and> rd_sha1_verify r = rd_sha1_copy r \<and>
     rd_output_size r = Some 3145728 \<and>
     rd_size_match r = ''YES'' \<and> rd_md5_match r = ''YES'' \<and> rd_sha1_match r = ''YES'' \<and>
     rd_conclusion r = ''Image creation SUCCESSFUL. Integrity verified by size and hash match.''"
proof -
  have inp: "in_source_path (scenario_inputs ''evidence.bin'' []) = ''evidence.bin''"
    "''evidence.bin'' \<noteq> []"
    "or_default (in_output_path (scenario_inputs ''evidence.bin'' [])) default_output
       = ''disk_image.dd''"
    by (simp_all add: scenario_inputs_def or_default_def default_output_def)
  have src: "scenario_fs ''evidence.bin'' = Some (regular_file (replicate 3145728 0xAB))"
    "ordinary (regular_file (replicate 3145728 0xAB))"
    "content (regular_file (replicate 3145728 0xAB)) = replicate 3145728 0xAB"
    by (simp_all add: scenario_fs_def ordinary_def regular_file_def)
  have dst: "''evidence.bin'' \<noteq> ''disk_image.dd''"
    "ordinary_target scenario_fs ''disk_image.dd''"
    "ordinary_target scenario_fs report_path"
    by (simp_all add: scenario_fs_def ordinary_target_def report_path_def)
  from three_mebibyte_scenario
    [where fs = scenario_fs and render = no_layout, OF inp src dst]
  show ?thesis by blast
qed





text \<open>
  C9. When both files were opened and a read or a write raises inside the copy loop, \<^verbatim>\<open>main\<close>
  ends with that error: no verify pass, no report. The file system it leaves is the one the
  failed loop left: every path that does not name the destination is untouched and the
  destination holds the bytes written before the fault, a proper prefix of the source, with
  the attributes it was opened with.
\<close>

theorem copy_fault_keeps_partial_image:
  assumes inp: "in_source_path inp = src" "src \<noteq> []"
      "or_default (in_output_path inp) default_output = out"
    and opened: "open_rb fs src = Inr f" "open_wb fs out = Inr (d, fs0)"
      "\<not> same_file fs src out"
    and fault: "copy_loop f default_chunk_size 0 d md5_init sha1_init 0 [] = (Inl e, progress, d')"
  shows "main render inp fs = (Failed e, put fs out d') \<and> e = OSError \<and>
         d' = d\<lparr>content := content d'\<rparr> \<and>
         (\<exists>rest. content f = content d' @ rest \<and> rest \<noteq> []) \<and>
         put fs out d' out = Some d' \<and>
         (\<forall>q. q \<noteq> out \<and> q \<notin> set (links d) \<longrightarrow> put fs out d' q = fs q)"
proof -
  note dd = open_wb_Inr [OF opened(2)]
  note ns = not_same_file [OF opened(3,2)]
  from copy_loop_failure [OF fault read_request_default]
  obtain written rest where wr: "d' = d\<lparr>content := content d @ written\<rparr>"
    "drop 0 (content f) = written @ rest" "rest \<noteq> []" "e = OSError"
    by blast
  have "content d' = written"
    using wr(1) dd by simp
  with wr have d': "d' = d\<lparr>content := content d'\<rparr>" and cf: "content f = content d' @ rest"
    using dd by simp_all
  have ld: "links d' = links d"
    using wr(1) by simp
  have "fs0 src = Some f"
    using dd ns open_rb_Inr [OF opened(1)] by (simp add: put_other)
  moreover have "put fs0 out d' = put fs out d'"
    using dd put_put [OF ld, of fs out] by simp
  ultimately
  have cs: "copy_stream src out default_chunk_size fs = (Inl e, progress, put fs out d')"
    using opened(1,2) fault by (simp add: copy_stream_def)
  then have "image_and_hash src out default_chunk_size fs = (Inl e, progress, put fs out d')"
    by (simp add: image_and_hash_def Let_def)
  with inp have m: "main render inp fs = (Failed e, put fs out d')"
    using main_failed_copy [of inp fs e progress "put fs out d'" render] by simp
  have frame: "\<forall>q. q \<noteq> out \<and> q \<notin> set (links d) \<longrightarrow> put fs out d' q = fs q"
    using ld by (simp add: put_other)
  from m wr(3,4) d' cf frame show ?thesis
    by (simp add: put_same)
qed

theorem copy_fault_keeps_partial_image_witness:
  "main no_layout (scenario_inputs ''/dev/sdb'' []) damaged_fs =
     (Failed OSError, damaged_fs(''disk_image.dd'' \<mapsto> regular_file (replicate 1048576 0xAB))) \<and>
   (\<exists>rest. replicate 2097152 (0xAB :: byte) = replicate 1048576 0xAB @ rest \<and> rest \<noteq> [])"
proof -
  let ?inp = "scenario_inputs ''/dev/sdb'' []"
  let ?f = "(regular_file (replicate 2097152 0xAB))\<lparr>bad_offset := Some 1500000\<rparr>"
  have inp: "in_source_path ?inp = ''/dev/sdb''" "''/dev/sdb'' \<noteq> []"
    "or_default (in_output_path ?inp) default_output = ''disk_image.dd''"
    by (simp_all add: scenario_inputs_def or_default_def default_output_def)
  have opened: "open_rb damaged_fs ''/dev/sdb'' = Inr ?f"
    "open_wb damaged_fs ''disk_image.dd''
       = Inr (regular_file [], damaged_fs(''disk_image.dd'' \<mapsto> regular_file []))"
    "\<not> same_file damaged_fs ''/dev/sdb'' ''disk_image.dd''"
    by (simp_all add: open_rb_def open_wb_def damaged_fs_def regular_file_def same_file_def)
  have "put damaged_fs ''disk_image.dd'' (regular_file (replicate 1048576 0xAB)) =
          damaged_fs(''disk_image.dd'' \<mapsto> regular_file (replicate 1048576 0xAB))"
    by (rule put_no_links) (simp add: regular_file_def)
  with copy_fault_keeps_partial_image
    [where fs = damaged_fs and render = no_layout, OF inp opened damaged_copy_loop]
  show ?thesis
    by (simp add: regular_file_def)
qed

text \<open>
  C10. For an empty ordinary source, \<^verbatim>\<open>main\<close> completes: the loop stops at its first read
  (no progress value is printed), the destination exists with zero bytes, the copy and the
  verify digests are those of hash objects that were fed nothing, which are the digests
  \<^verbatim>\<open>d41d8cd98f00b204e9800998ecf8427e\<close> and \<^verbatim>\<open>da39a3ee5e6b4b0d3255bfef95601890afd80709\<close>
  of the empty byte string, both sizes are 0, all three comparisons say \<^verbatim>\<open>YES\<close>, and the
  conclusion is the successful one.
\<close>

theorem empty_source_succeeds:
  assumes inp: "in_source_path inp = src" "src \<noteq> []"
      "or_default (in_output_path inp) default_output = out"
    and src: "fs src = Some f" "ordinary f" "content f = []"
    and dst: "ordinary_target fs out" "ordinary_target fs report_path"
  shows "\<exists>d r fs''.
           image_and_hash src out default_chunk_size fs =
             (Inr (md5_hexdigest md5_init, sha1_hexdigest sha1_init, Some 0, Some 0), [],
              fs(out \<mapsto> d\<lparr>content := []\<rparr>)) \<and>
           main render inp fs = (Completed r, fs'') \<and>
           rd_md5_copy r = md5_hexdigest md5_init \<and>
           rd_md5_copy r = ''d41d8cd98f00b204e9800998ecf8427e'' \<and>
           rd_sha1_copy r = sha1_hexdigest sha1_init \<and>
           rd_sha1_copy r = ''da39a3ee5e6b4b0d3255bfef95601890afd80709'' \<and>
           rd_md5_verify r = rd_md5_copy r \<and> rd_sha1_verify r = rd_sha1_copy r \<and>
           rd_source_size r = Some 0 \<and> rd_output_size r = Some 0 \<and>
           rd_size_match r = ''YES'' \<and> rd_md5_match r = ''YES'' \<and> rd_sha1_match r = ''YES'' \<and>
           rd_conclusion r =
             ''Image creation SUCCESSFUL. Integrity verified by size and hash match.''"
proof -
  from main_ordinary [OF inp src(1,2) dst, of render]
  obtain progress d r fs'' where m:
    "image_and_hash src out default_chunk_size fs =
       (Inr (md5_hex [], sha1_hex [], Some 0, Some 0), progress, fs(out \<mapsto> d\<lparr>content := []\<rparr>))"
    "main render inp fs = (Completed r, fs'')"
    "rd_md5_copy r = md5_hex []" "rd_sha1_copy r = sha1_hex []"
    "rd_md5_verify r = rd_md5_copy r" "rd_sha1_verify r = rd_sha1_copy r"
    "rd_source_size r = Some 0" "rd_output_size r = Some 0"
    "rd_size_match r = size_match (Some 0) (Some 0)"
    "rd_md5_match r = ''YES''" "rd_sha1_match r = ''YES''"
    "rd_conclusion r = conclusion True True (size_match (Some 0) (Some 0))"
    unfolding src(3) by auto
  have f: "open_rb fs src = Inr f"
    using src(1,2) by (simp add: open_rb_def ordinary_def)
  from ordinary_target_write [OF dst(1)]
  obtain d0 where d0: "open_wb fs out = Inr (d0, fs(out \<mapsto> d0))" "content d0 = []"
    by blast
  have "progress = fst (snd (image_and_hash src out default_chunk_size fs))"
    using m(1) by simp
  also have "\<dots> = fst (snd (copy_loop (case (fs(out \<mapsto> d0)) src of None \<Rightarrow> f | Some g \<Rightarrow> g)
                               default_chunk_size 0 d0 md5_init sha1_init 0 []))"
    by (rule image_and_hash_progress [OF f d0(1)])
  also have "\<dots> = []"
    using copy_loop_empty [of "case (fs(out \<mapsto> d0)) src of None \<Rightarrow> f | Some g \<Rightarrow> g"
        default_chunk_size "Some 1048576"] src(1,3) d0(2) read_request_default [of Raw]
    by simp
  finally have p: "progress = []" .
  from m p show ?thesis
    by (simp add: size_match_def conclusion_def md5_hex_Nil sha1_hex_Nil md5_hexdigest_init
          sha1_hexdigest_init)
       blast
qed

theorem empty_source_succeeds_witness:
  "\<exists>d r fs''.
     image_and_hash ''empty.bin'' ''disk_image.dd'' default_chunk_size
         [''empty.bin'' \<mapsto> regular_file []] =
       (Inr (md5_hexdigest md5_init, sha1_hexdigest sha1_init, Some 0, Some 0), [],
        [''empty.bin'' \<mapsto> regular_file [], ''disk_image.dd'' \<mapsto> d\<lparr>content := []\<rparr>]) \<and>
     main no_layout (scenario_inputs ''empty.bin'' []) [''empty.bin'' \<mapsto> regular_file []]
       = (Completed r, fs'') \<and>
     rd_md5_copy r = ''d41d8cd98f00b204e9800998ecf8427e'' \<and>
     rd_sha1_copy r = ''da39a3ee5e6b4b0d3255bfef95601890afd80709'' \<and>
     rd_md5_verify r = rd_md5_copy r \<and> rd_sha1_verify r = rd_sha1_copy r \<and>
     rd_size_match r = ''YES'' \<and> rd_md5_match r = ''YES'' \<and> rd_sha1_match r = ''YES'' \<and>
     rd_conclusion r = ''Image creation SUCCESSFUL. Integrity verified by size and hash match.''"
proof -
  let ?fs = "[''empty.bin'' \<mapsto> regular_file []]"
  have inp: "in_source_path (scenario_inputs ''empty.bin'' []) = ''empty.bin''"
    "''empty.bin'' \<noteq> []"
    "or_default (in_output_path (scenario_inputs ''empty.bin'' [])) default_output
       = ''disk_image.dd''"
    by (simp_all add: scenario_inputs_def or_default_def default_output_def)
  have src: "?fs ''empty.bin'' = Some (regular_file [])" "ordinary (regular_file [])"
    "content (regular_file []) = []"
    by (simp_all add: ordinary_def regular_file_def)
  have dst: "ordinary_target ?fs ''disk_image.dd''" "ordinary_target ?fs report_path"
    by (simp_all add: ordinary_target_def report_path_def)
  from empty_source_succeeds [where fs = ?fs and render = no_layout, OF inp src dst]
  show ?thesis by blast
qed

end
